theory Spec2Isabelle
  imports Main "HOL-Library.Word"
begin

unbundle bit_operations_syntax

section \<open>Common vocabulary\<close>

type_synonym byte = "8 word"

text \<open>
  The ways a call can end without returning: a failed \<^verbatim>\<open>assert\<close>
  aborts the process, and a read outside the object a pointer refers to, a null
  dereference or a signed overflow is undefined behaviour.
\<close>

datatype failure = AssertionFailed | UndefinedBehaviour

text \<open>The range of a 32-bit \<^verbatim>\<open>int\<close>.\<close>

definition INT_MAX :: int where
  "INT_MAX = 2147483647"

definition INT_MIN :: int where
  "INT_MIN = - 2147483648"

definition in_int_range :: "int \<Rightarrow> bool" where
  "in_int_range x = (INT_MIN \<le> x \<and> x \<le> INT_MAX)"

text \<open>
  A \<^verbatim>\<open>FILE*\<close> stream: the bytes of the file on the device, the position on the
  device, the number of bytes the device still accepts, the bytes written to the
  stream that wait in its buffer, and the size of that buffer (0 for an unbuffered
  stream).
\<close>

record FILE =
  contents :: "byte list"
  fpos :: nat
  room :: nat
  pending :: "byte list"
  bufsiz :: nat


definition fread :: "nat \<Rightarrow> FILE \<Rightarrow> byte list \<times> FILE" where
  "fread n f =
     (let bs = take n (drop (fpos f) (contents f))
      in (bs, f\<lparr>fpos := fpos f + length bs\<rparr>))"

definition fseek_cur :: "int \<Rightarrow> FILE \<Rightarrow> FILE" where
  "fseek_cur d f = (if 0 \<le> int (fpos f) + d then f\<lparr>fpos := nat (int (fpos f) + d)\<rparr> else f)"

definition ftell :: "FILE \<Rightarrow> int" where
  "ftell f = int (fpos f + length (pending f))"

section \<open>Serializer.h: the Serializer\<close>

text \<open>
  \<^verbatim>\<open>Serializer::Buffer\<close> is an abstract class with the two
  virtual members \<^verbatim>\<open>write(data, len)\<close> and
  \<^verbatim>\<open>pos()\<close>. An implementation is a state type \<open>'b\<close>
  with these two operations; \<open>data\<close> is the memory the pointer refers to and
  the call receives the first \<open>len\<close> bytes of it.
\<close>

record 'b Buffer =
  buf_write :: "byte list \<Rightarrow> int \<Rightarrow> 'b \<Rightarrow> bool \<times> 'b"
  buf_pos :: "'b \<Rightarrow> int"

text \<open>\<^verbatim>\<open>StringBuffer\<close>: appends to the string and always succeeds.\<close>

definition StringBuffer :: "(byte list) Buffer" where
  "StringBuffer =
     \<lparr>buf_write = (\<lambda>data len mString. (True, mString @ take (nat len) data)),
      buf_pos = (\<lambda>mString. int (length mString))\<rparr>"


record 'b Serializer =
  mError :: bool
  mBuffer :: 'b




definition Serializer_pos :: "'b Buffer \<Rightarrow> 'b Serializer \<Rightarrow> int" where
  "Serializer_pos B s = buf_pos B (mBuffer s)"



section \<open>Serializer.h: the Deserializer\<close>

text \<open>
  \<open>mData\<close> is \<open>None\<close> for a null pointer and
  \<open>Some d\<close> for a pointer to a buffer that holds the bytes \<open>d\<close>.
  The \<^verbatim>\<open>int\<close> members are mathematical integers; arithmetic that
  leaves the range of a 32-bit \<^verbatim>\<open>int\<close> is undefined behaviour.
\<close>

record Deserializer =
  mData :: "byte list option"
  mLength :: int
  mPos :: int
  mFile :: "FILE option"
  mKey :: string

text \<open>The conversion of an \<^verbatim>\<open>int\<close> to the 64-bit \<^verbatim>\<open>size_t\<close> that \<^verbatim>\<open>memcpy\<close> takes.\<close>

definition to_size_t :: "int \<Rightarrow> nat" where
  "to_size_t len = nat (len mod 2 ^ 64)"

text \<open>
  \<^verbatim>\<open>memcpy(target, mData + mPos, len)\<close>: the \<open>n\<close>
  bytes of the buffer from offset \<open>off\<close>; undefined when the source range is
  not inside the buffer.
\<close>

definition memcpy_from :: "byte list \<Rightarrow> int \<Rightarrow> nat \<Rightarrow> byte list option" where
  "memcpy_from d off n =
     (if 0 \<le> off \<and> nat off + n \<le> length d then Some (take n (drop (nat off) d)) else None)"

definition Deserializer_mem :: "byte list option \<Rightarrow> int \<Rightarrow> string \<Rightarrow> Deserializer" where
  "Deserializer_mem data len key =
     \<lparr>mData = data, mLength = len, mPos = 0, mFile = None, mKey = key\<rparr>"

text \<open>The constructor from a \<^verbatim>\<open>FILE*\<close> leaves \<open>mPos\<close> uninitialised: \<open>junk\<close> is its value.\<close>

definition Deserializer_file :: "FILE \<Rightarrow> string \<Rightarrow> int \<Rightarrow> Deserializer" where
  "Deserializer_file file key junk =
     \<lparr>mData = None, mLength = 0, mPos = junk, mFile = Some file, mKey = key\<rparr>"

text \<open>
  \<^verbatim>\<open>peek\<close> and \<^verbatim>\<open>read\<close> return the bytes
  stored to \<open>target\<close>, the \<^verbatim>\<open>int\<close> result and the
  Deserializer afterwards. The \<^verbatim>\<open>RCT_SERIALIZER_DUMP\<close> printout
  of \<^verbatim>\<open>read\<close> goes to standard output and touches no state of the
  model.
\<close>

definition Deserializer_peek ::
  "int \<Rightarrow> Deserializer \<Rightarrow> failure + (byte list \<times> int \<times> Deserializer)" where
  "Deserializer_peek len s =
     (if len \<noteq> 0 then
        (case mData s of
           Some d \<Rightarrow>
             if \<not> in_int_range (mPos s + len) then Inl UndefinedBehaviour
             else if \<not> mPos s + len \<le> mLength s then Inl AssertionFailed
             else (case memcpy_from d (mPos s) (to_size_t len) of
                     None \<Rightarrow> Inl UndefinedBehaviour
                   | Some bs \<Rightarrow> Inr (bs, len, s))
         | None \<Rightarrow>
             (case mFile s of
                None \<Rightarrow> Inl AssertionFailed
              | Some f \<Rightarrow>
                  if len < 0 then Inl UndefinedBehaviour
                  else (case fread (nat len) f of
                          (bs, f') \<Rightarrow>
                            let read = int (length bs)
                            in Inr (bs, read, s\<lparr>mFile := Some (fseek_cur (- read) f')\<rparr>))))
      else Inr ([], 0, s))"

definition Deserializer_read ::
  "int \<Rightarrow> Deserializer \<Rightarrow> failure + (byte list \<times> int \<times> Deserializer)" where
  "Deserializer_read len s =
     (if len \<noteq> 0 then
        (case mData s of
           Some d \<Rightarrow>
             if \<not> in_int_range (mPos s + len) then Inl UndefinedBehaviour
             else if \<not> mPos s + len \<le> mLength s then Inl AssertionFailed
             else (case memcpy_from d (mPos s) (to_size_t len) of
                     None \<Rightarrow> Inl UndefinedBehaviour
                   | Some bs \<Rightarrow> Inr (bs, len, s\<lparr>mPos := mPos s + len\<rparr>))
         | None \<Rightarrow>
             (case mFile s of
                None \<Rightarrow> Inl AssertionFailed
              | Some f \<Rightarrow>
                  if len < 0 then Inl UndefinedBehaviour
                  else (case fread (nat len) f of
                          (bs, f') \<Rightarrow> Inr (bs, int (length bs), s\<lparr>mFile := Some f'\<rparr>))))
      else Inr ([], 0, s))"

definition Deserializer_pos :: "Deserializer \<Rightarrow> int" where
  "Deserializer_pos s = (case mFile s of Some f \<Rightarrow> ftell f | None \<Rightarrow> mPos s)"

text \<open>
  A memory-backed Deserializer as the first two constructors build it and
  \<^verbatim>\<open>read\<close> keeps it: a buffer of at least \<open>mLength\<close>
  bytes, no file, and a position between 0 and \<open>mLength\<close>, with
  \<open>mLength\<close> an \<^verbatim>\<open>int\<close>.
\<close>

definition memory_backed :: "Deserializer \<Rightarrow> bool" where
  "memory_backed s =
     (case mData s of
        None \<Rightarrow> False
      | Some d \<Rightarrow> mFile s = None \<and> 0 \<le> mPos s \<and> mPos s \<le> mLength s
                 \<and> mLength s \<le> int (length d) \<and> mLength s \<le> INT_MAX)"

section \<open>SharedMemory.cpp\<close>

text \<open>
  The System V calls the file makes. \<^verbatim>\<open>key_t\<close>, segment
  identifiers, sizes and flag words are integers; a \<^verbatim>\<open>void*\<close> is
  the integer of its address, so the null pointer is 0 and
  \<^verbatim>\<open>reinterpret_cast<void*>(-1)\<close> is \<open>-1\<close>. Only the
  two members of \<^verbatim>\<open>shmid_ds\<close> that the code sets are kept;
  \<^verbatim>\<open>memset\<close> zeroes the others.
\<close>

record shmid_ds =
  shm_perm_uid :: int
  shm_perm_mode :: int

datatype syscall =
    Shmget int int int
  | Shmctl_RMID int
  | Shmctl_SET int shmid_ds
  | Shmat int int int
  | Shmdt int
  | Getuid

definition IPC_CREAT :: int where "IPC_CREAT = 512"
definition IPC_EXCL :: int where "IPC_EXCL = 1024"
definition SHM_DEST :: int where "SHM_DEST = 512"
definition SHM_RDONLY :: int where "SHM_RDONLY = 4096"
definition SHM_RND :: int where "SHM_RND = 8192"

text \<open>
  The operating system is a parameter: a kernel state \<open>'k\<close> and a function
  that gives, for a call in a state, the integer the call returns and the state
  afterwards. The host of a process keeps the kernel state, the calls made so far with
  their results, and the number of lines written through
  \<^verbatim>\<open>error()\<close>.
\<close>

type_synonym 'k os = "syscall \<Rightarrow> 'k \<Rightarrow> int \<times> 'k"

record 'k host =
  kernel :: 'k
  calls :: "(syscall \<times> int) list"
  errors :: nat

definition sys :: "'k os \<Rightarrow> syscall \<Rightarrow> 'k host \<Rightarrow> int \<times> 'k host" where
  "sys os c h =
     (case os c (kernel h) of
        (r, k') \<Rightarrow> (r, h\<lparr>kernel := k', calls := calls h @ [(c, r)]\<rparr>))"

definition error_log :: "'k host \<Rightarrow> 'k host" where
  "error_log h = h\<lparr>errors := Suc (errors h)\<rparr>"

text \<open>
  Modelled from the spec: \<^verbatim>\<open>SharedMemory.h\<close> is not among the
  sources. The spec names the create-modes attach-only, exclusive-create and
  destroy-and-recreate; the code names the first \<^verbatim>\<open>None\<close> and the
  last \<^verbatim>\<open>Recreate\<close>.
\<close>

datatype CreateMode = None_CreateMode | Create | Recreate

record SharedMemory =
  mShm :: int
  mOwner :: bool
  mAddr :: int
  mKey :: int
  mSize :: int

definition SharedMemory_fields :: SharedMemory where
  "SharedMemory_fields = \<lparr>mShm = - 1, mOwner = False, mAddr = 0, mKey = - 1, mSize = 0\<rparr>"

text \<open>\<open>darwin\<close> says whether the build defines \<^verbatim>\<open>OS_Darwin\<close>.\<close>

definition SharedMemory_init ::
  "'k os \<Rightarrow> bool \<Rightarrow> int \<Rightarrow> int \<Rightarrow> CreateMode \<Rightarrow> SharedMemory \<times> 'k host
     \<Rightarrow> bool \<times> SharedMemory \<times> 'k host" where
  "SharedMemory_init os darwin key sz mode mh =
     (case mh of (m, h) \<Rightarrow>
      if key = - 1 then (False, m, h)
      else
        (case sys os (Shmget key sz
                 (if mode = None_CreateMode then 0 else IPC_CREAT OR IPC_EXCL)) h of
           (r1, h1) \<Rightarrow>
        (case (if r1 = - 1 \<and> mode = Recreate then
                 (case sys os (Shmget key sz 0) h1 of
                    (r2, h2) \<Rightarrow>
                      if r2 \<noteq> - 1 then
                        (case sys os (Shmctl_RMID r2) h2 of
                           (_, h3) \<Rightarrow> sys os (Shmget key sz (IPC_CREAT OR IPC_EXCL)) h3)
                      else (r2, h2))
               else (r1, h1)) of
           (shm, h4) \<Rightarrow>
        if shm = - 1 then (False, m\<lparr>mShm := shm\<rparr>, h4)
        else if mode \<noteq> None_CreateMode then
          (case sys os Getuid h4 of
             (uid, h5) \<Rightarrow>
               let ds = \<lparr>shm_perm_uid = uid,
                         shm_perm_mode = (if darwin then 384 else 384 OR SHM_DEST)\<rparr>
               in (case sys os (Shmctl_SET shm ds) h5 of
                     (ret, h6) \<Rightarrow>
                       if ret = - 1 then
                         (case sys os (Shmctl_RMID shm) h6 of
                            (_, h7) \<Rightarrow> (False, m\<lparr>mShm := - 1\<rparr>, h7))
                       else (True, m\<lparr>mShm := shm, mKey := key,
                                      mOwner := (mode \<noteq> None_CreateMode), mSize := sz\<rparr>, h6)))
        else (True, m\<lparr>mShm := shm, mKey := key,
                       mOwner := (mode \<noteq> None_CreateMode), mSize := sz\<rparr>, h4))))"

definition SharedMemory_new ::
  "'k os \<Rightarrow> bool \<Rightarrow> int \<Rightarrow> int \<Rightarrow> CreateMode \<Rightarrow> 'k host \<Rightarrow> SharedMemory \<times> 'k host" where
  "SharedMemory_new os darwin key sz mode h =
     snd (SharedMemory_init os darwin key sz mode (SharedMemory_fields, h))"

text \<open>
  \<open>Write\<close> is the value of the enumerator
  \<^verbatim>\<open>SharedMemory::Write\<close>, declared in the absent header;
  \<open>flag\<close> and \<open>address\<close> are the arguments of the call.
\<close>

definition attach ::
  "'k os \<Rightarrow> int \<Rightarrow> int \<Rightarrow> int \<Rightarrow> SharedMemory \<times> 'k host \<Rightarrow> int \<times> SharedMemory \<times> 'k host" where
  "attach os Write flag address mh =
     (case mh of (m, h) \<Rightarrow>
      if mAddr m \<noteq> 0 then (mAddr m, m, h)
      else
        let flg0 = (if address \<noteq> 0 then SHM_RND else 0);
            flg = (if flag AND Write = 0 then flg0 OR SHM_RDONLY else flg0)
        in (case sys os (Shmat (mShm m) address flg) h of
              (a, h1) \<Rightarrow>
                if a = - 1 then (0, m\<lparr>mAddr := 0\<rparr>, error_log h1)
                else (a, m\<lparr>mAddr := a\<rparr>, h1)))"

definition detach :: "'k os \<Rightarrow> SharedMemory \<times> 'k host \<Rightarrow> SharedMemory \<times> 'k host" where
  "detach os mh =
     (case mh of (m, h) \<Rightarrow>
      if mAddr m = 0 then (m, h)
      else (case sys os (Shmdt (mAddr m)) h of (_, h1) \<Rightarrow> (m\<lparr>mAddr := 0\<rparr>, h1)))"

definition cleanup :: "'k os \<Rightarrow> SharedMemory \<times> 'k host \<Rightarrow> SharedMemory \<times> 'k host" where
  "cleanup os mh =
     (case detach os mh of (m, h) \<Rightarrow>
      if mShm m \<noteq> - 1 \<and> mOwner m then
        (case sys os (Shmctl_RMID (mShm m)) h of (_, h1) \<Rightarrow> (m, h1))
      else (m, h))"

text \<open>
  A small kernel to run the calls on. It keeps the segment of each key, the key and
  the owner of each segment, the identifiers marked for removal, the number the next
  new segment gets, the user of the process, and whether mappings can be made. A new
  segment belongs to its creator; \<^verbatim>\<open>IPC_RMID\<close> and \<^verbatim>\<open>IPC_SET\<close> are granted to the owner
  of the segment only and fail for anyone else; \<^verbatim>\<open>IPC_RMID\<close> frees the key. Access
  permission bits are left out: any user may look a segment up and map it.
\<close>

record sysv =
  shm_of_key :: "int \<rightharpoonup> int"
  seg_of_shm :: "int \<rightharpoonup> int \<times> int"
  removed :: "int list"
  next_shmid :: nat
  euid :: int
  can_map :: bool

fun sysv_os :: "sysv os" where
  "sysv_os (Shmget key sz flags) k =
     (case shm_of_key k key of
        Some shmid \<Rightarrow>
          if flags AND IPC_CREAT \<noteq> 0 \<and> flags AND IPC_EXCL \<noteq> 0 then (- 1, k) else (shmid, k)
      | None \<Rightarrow>
          if flags AND IPC_CREAT \<noteq> 0
          then (int (next_shmid k),
                k\<lparr>shm_of_key := (shm_of_key k)(key \<mapsto> int (next_shmid k)),
                  seg_of_shm := (seg_of_shm k)(int (next_shmid k) \<mapsto> (key, euid k)),
                  next_shmid := Suc (next_shmid k)\<rparr>)
          else (- 1, k))"
| "sysv_os (Shmctl_RMID shmid) k =
     (case seg_of_shm k shmid of
        Some (key, owner) \<Rightarrow>
          if owner = euid k
          then (0, k\<lparr>shm_of_key := (shm_of_key k)(key := None),
                     seg_of_shm := (seg_of_shm k)(shmid := None),
                     removed := shmid # removed k\<rparr>)
          else (- 1, k)
      | None \<Rightarrow> (- 1, k))"
| "sysv_os (Shmctl_SET shmid ds) k =
     (case seg_of_shm k shmid of
        Some (key, owner) \<Rightarrow>
          if owner = euid k
          then (0, k\<lparr>seg_of_shm := (seg_of_shm k)(shmid \<mapsto> (key, shm_perm_uid ds))\<rparr>)
          else (- 1, k)
      | None \<Rightarrow> (- 1, k))"
| "sysv_os (Shmat shmid address flg) k =
     (case seg_of_shm k shmid of
        Some seg \<Rightarrow> if can_map k then (4096 * (shmid + 1), k) else (- 1, k)
      | None \<Rightarrow> (- 1, k))"
| "sysv_os (Shmdt address) k = (0, k)"
| "sysv_os Getuid k = (euid k, k)"

section \<open>EventLoop.h: deferred calls\<close>

text \<open>
  A \<^verbatim>\<open>SignalEvent\<close> holds a callable and its arguments and
  \<^verbatim>\<open>exec()\<close> applies the one to the others. Of a callable the
  model keeps a label that names it and what it asks of the loop that runs it: the
  events it posts there, in order, and the code it quits the loop with, if it does. A
  \<^verbatim>\<open>DeleteLaterEvent\<close> holds the address of a heap value.
\<close>

datatype callback = Callback nat "Event list" "int option"
  and Event = SignalEvent callback | DeleteLaterEvent nat

fun posted :: "callback \<Rightarrow> Event list" where
  "posted (Callback label es q) = es"

fun quits :: "callback \<Rightarrow> int option" where
  "quits (Callback label es q) = q"

text \<open>
  \<^verbatim>\<open>exec()\<close> on the values that are alive:
  \<^verbatim>\<open>DeleteLaterEvent::exec\<close> is
  \<^verbatim>\<open>delete del\<close>; what a bound callable does to user data is
  outside the reactor.
\<close>

fun Event_exec :: "Event \<Rightarrow> nat set \<Rightarrow> nat set" where
  "Event_exec (DeleteLaterEvent del) alive = alive - {del}"
| "Event_exec (SignalEvent cb) alive = alive"

section \<open>EventLoop.h: the loop object\<close>

text \<open>
  Modelled from the spec: the struct \<^verbatim>\<open>EventCallbackData\<close> is
  only declared in the header. Section 3, TimerRegistration: next-expiration timestamp,
  period, repeat flag, callback.
\<close>

record TimerRegistration =
  expires :: int
  period :: int
  repeat :: bool
  timerCallback :: callback

text \<open>
  Modelled from the spec: section 3, SocketRegistration: watched-mode mask
  (read, write, one-shot and error bits) and callback.
\<close>

record SocketRegistration =
  modeMask :: int
  socketCallback :: callback

text \<open>
  Modelled from the spec: the members behind the deferred-call queue
  \<open>events\<close>, the tables \<open>timers\<close> and \<open>sockets\<close>
  (keyed by identifier and by descriptor, in table order), the run state
  \<open>quitting\<close> and the stored \<open>quitCode\<close> are used in the absent
  \<^verbatim>\<open>EventLoop.cpp\<close> only; they follow sections 3 and 4 of the
  spec. The members \<open>threadId\<close>, \<open>nextId\<close> (a
  \<^verbatim>\<open>uint32_t\<close>) and \<open>flgs\<close> are the header's.
\<close>

record EventLoop =
  threadId :: nat
  nextId :: "32 word"
  flgs :: nat
  events :: "Event list"
  timers :: "(int \<times> TimerRegistration) list"
  sockets :: "(int \<times> SocketRegistration) list"
  quitting :: bool
  quitCode :: int

definition Success :: nat where "Success = 0x100"
definition GeneralError :: nat where "GeneralError = 0x200"
definition Timeout :: nat where "Timeout = 0x400"

definition SocketRead :: int where "SocketRead = 0x1"
definition SocketWrite :: int where "SocketWrite = 0x2"
definition SocketOneShot :: int where "SocketOneShot = 0x4"
definition SocketError :: int where "SocketError = 0x8"

text \<open>\<^verbatim>\<open>int fdToId(int fd) {return -fd;}\<close>: negating \<open>INT_MIN\<close> overflows.\<close>

definition fdToId :: "int \<Rightarrow> failure + int" where
  "fdToId fd = (if in_int_range (- fd) then Inr (- fd) else Inl UndefinedBehaviour)"

text \<open>
  \<^verbatim>\<open>int generateId() {return nextId++;}\<close>: the old value of the
  32-bit counter, converted to \<^verbatim>\<open>int\<close>, and the counter one
  further, wrapping at \<open>2 ^ 32\<close>.
\<close>

definition generateId :: "EventLoop \<Rightarrow> int \<times> EventLoop" where
  "generateId l = (sint (nextId l), l\<lparr>nextId := nextId l + 1\<rparr>)"

section \<open>EventLoop.h: the registry\<close>

text \<open>
  Modelled from the spec: \<open>localLoop\<close>, the weak association from a thread's
  identity to the loop bound to it (section 3, Registry), is kept in the absent
  \<^verbatim>\<open>EventLoop.cpp\<close>. The rest of the process is the header's: the
  \<^verbatim>\<open>EventLoop\<close> objects by address, the number of
  \<^verbatim>\<open>shared_ptr\<close> owners of each (the object is destroyed when its
  last owner goes, so an address is alive while its count is positive), the static
  \<^verbatim>\<open>weak_ptr\<close> \<open>mainLoop\<close> (\<open>None\<close> when
  empty, else the address it refers to), the heap values that are alive, and the lines
  written through \<^verbatim>\<open>error\<close>.
\<close>

record process =
  loops :: "nat \<Rightarrow> EventLoop"
  use_count :: "nat \<Rightarrow> nat"
  mainLoop :: "nat option"
  localLoop :: "nat \<Rightarrow> nat option"
  heap :: "nat set"
  reported :: "string list"

text \<open>
  \<^verbatim>\<open>weak_ptr::lock()\<close> yields an owner of the object when it is
  alive, and an empty pointer otherwise; making or copying a
  \<^verbatim>\<open>shared_ptr\<close> adds an owner and destroying one removes it. The
  weak pointer itself is no owner.
\<close>

definition lock :: "process \<Rightarrow> nat option \<Rightarrow> nat option" where
  "lock p w = (case w of None \<Rightarrow> None | Some a \<Rightarrow> if 0 < use_count p a then Some a else None)"

definition retain :: "nat \<Rightarrow> process \<Rightarrow> process" where
  "retain a p = p\<lparr>use_count := (use_count p)(a := Suc (use_count p a))\<rparr>"

definition release :: "nat \<Rightarrow> process \<Rightarrow> process" where
  "release a p = p\<lparr>use_count := (use_count p)(a := use_count p a - 1)\<rparr>"

definition mainEventLoop :: "process \<Rightarrow> nat option \<times> process" where
  "mainEventLoop p =
     (case lock p (mainLoop p) of
        None \<Rightarrow> (None, p)
      | Some a \<Rightarrow> (Some a, retain a p))"

text \<open>
  \<^verbatim>\<open>isMainThread\<close> calls
  \<^verbatim>\<open>mainEventLoop()\<close> twice; \<open>tid\<close> is
  \<^verbatim>\<open>std::this_thread::get_id()\<close>. The two temporaries go at the
  end of the expression; \<^verbatim>\<open>->\<close> on an empty pointer is undefined.
\<close>

definition isMainThread :: "nat \<Rightarrow> process \<Rightarrow> failure + (bool \<times> process)" where
  "isMainThread tid p =
     (case mainEventLoop p of
        (None, p1) \<Rightarrow> Inr (False, p1)
      | (Some a, p1) \<Rightarrow>
          (case mainEventLoop p1 of
             (None, p2) \<Rightarrow> Inl UndefinedBehaviour
           | (Some b, p2) \<Rightarrow> Inr (tid = threadId (loops p2 b), release a (release b p2))))"

text \<open>
  Modelled from the spec: \<^verbatim>\<open>eventLoop()\<close> is declared in the
  header and defined in the absent \<^verbatim>\<open>EventLoop.cpp\<close>. Section
  4.5: it returns the instance bound to the calling thread if there is one, else falls
  back to the main loop.
\<close>

definition eventLoop :: "nat \<Rightarrow> process \<Rightarrow> nat option \<times> process" where
  "eventLoop tid p =
     (case lock p (localLoop p tid) of
        Some a \<Rightarrow> (Some a, retain a p)
      | None \<Rightarrow> mainEventLoop p)"

text \<open>
  Modelled from the spec: \<^verbatim>\<open>post(Event*)\<close> is declared in the
  header and defined in the absent \<^verbatim>\<open>EventLoop.cpp\<close>. Section
  4.4: it enqueues an owned unit of work at the back of the loop's FIFO.
  \<open>post_to\<close> is \<^verbatim>\<open>loop->post(event)\<close> through a
  handle.
\<close>

definition post :: "Event \<Rightarrow> EventLoop \<Rightarrow> EventLoop" where
  "post event l = l\<lparr>events := events l @ [event]\<rparr>"

definition post_to :: "nat \<Rightarrow> Event \<Rightarrow> process \<Rightarrow> process" where
  "post_to a event p = p\<lparr>loops := (loops p)(a := post event (loops p a))\<rparr>"

text \<open>
  Modelled from the spec: \<^verbatim>\<open>error(const char*)\<close> is declared in
  the header and defined in the absent \<^verbatim>\<open>EventLoop.cpp\<close>. Section
  7: the error is reported.
\<close>

definition error :: "string \<Rightarrow> process \<Rightarrow> process" where
  "error err p = p\<lparr>reported := reported p @ [err]\<rparr>"

text \<open>\<^verbatim>\<open>deleteLater\<close>, from the header; \<open>tid\<close> is the calling thread.\<close>

definition deleteLater :: "nat \<Rightarrow> nat \<Rightarrow> process \<Rightarrow> process" where
  "deleteLater tid del p =
     (case eventLoop tid p of
        (Some loop, p1) \<Rightarrow> release loop (post_to loop (DeleteLaterEvent del) p1)
      | (None, p1) \<Rightarrow> error ''No event loop!'' p1)"

section \<open>EventLoop.h: timers and the run loop\<close>

text \<open>
  \<^verbatim>\<open>registerTimer\<close>, \<^verbatim>\<open>unregisterTimer\<close>,
  \<^verbatim>\<open>unregisterSocket\<close>, \<^verbatim>\<open>quit\<close> and
  \<^verbatim>\<open>exec\<close> are declared in the header and defined in the absent
  \<^verbatim>\<open>EventLoop.cpp\<close>. All of this section follows sections 4.1,
  4.3 and 4.4 of the spec.
\<close>

text \<open>
  Modelled from the spec: \<^verbatim>\<open>Timer.h\<close> with the timer flags is
  absent. Section 4.3: the flags select single-shot or repeating; bit 0 is taken for
  single-shot.
\<close>

definition SingleShot :: int where "SingleShot = 0x1"

text \<open>
  Modelled from the spec: section 4.3,
  \<^verbatim>\<open>registerTimer(callback, timeoutMs, flags)\<close> allocates an
  identifier and schedules the first expiration at now + timeoutMs. The identifier is
  the one \<open>generateId\<close> of the header hands out; \<open>now\<close> is the
  clock at the call.
\<close>

definition registerTimer ::
  "callback \<Rightarrow> int \<Rightarrow> int \<Rightarrow> int \<Rightarrow> EventLoop \<Rightarrow> int \<times> EventLoop" where
  "registerTimer func timeout flags now l =
     (case generateId l of
        (i, l1) \<Rightarrow>
          (i, l1\<lparr>timers := filter (\<lambda>e. fst e \<noteq> i) (timers l1) @
                  [(i, \<lparr>expires = now + timeout, period = timeout,
                         repeat = (flags AND SingleShot = 0), timerCallback = func\<rparr>)]\<rparr>))"

text \<open>Successive \<^verbatim>\<open>registerTimer\<close> calls on one instance: the identifiers, in order.\<close>

fun registerTimers ::
  "(callback \<times> int \<times> int \<times> int) list \<Rightarrow> EventLoop \<Rightarrow> int list \<times> EventLoop" where
  "registerTimers [] l = ([], l)"
| "registerTimers ((func, timeout, flags, now) # reqs) l =
     (case registerTimer func timeout flags now l of
        (i, l1) \<Rightarrow> (case registerTimers reqs l1 of (ids, l2) \<Rightarrow> (i # ids, l2)))"

text \<open>
  Modelled from the spec: sections 4.2 and 4.3,
  \<^verbatim>\<open>unregisterTimer(id)\<close> and
  \<^verbatim>\<open>unregisterSocket(fd)\<close> remove the entry; no-op if unknown.
\<close>

definition unregisterTimer :: "int \<Rightarrow> EventLoop \<Rightarrow> EventLoop" where
  "unregisterTimer i l = l\<lparr>timers := filter (\<lambda>e. fst e \<noteq> i) (timers l)\<rparr>"

definition unregisterSocket :: "int \<Rightarrow> EventLoop \<Rightarrow> EventLoop" where
  "unregisterSocket fd l = l\<lparr>sockets := filter (\<lambda>e. fst e \<noteq> fd) (sockets l)\<rparr>"

text \<open>
  Modelled from the spec: section 3, a repeating timer is rescheduled by next
  expiration += period.
\<close>

definition reschedule :: "int \<Rightarrow> EventLoop \<Rightarrow> EventLoop" where
  "reschedule i l =
     l\<lparr>timers := map (\<lambda>e. if fst e = i
                          then (fst e, (snd e)\<lparr>expires := expires (snd e) + period (snd e)\<rparr>)
                          else e) (timers l)\<rparr>"

text \<open>
  Modelled from the spec: section 4.1, \<^verbatim>\<open>quit(code)\<close> sets the
  run state to quitting and stores the code.
\<close>

definition quit :: "int \<Rightarrow> EventLoop \<Rightarrow> EventLoop" where
  "quit code l = l\<lparr>quitting := True, quitCode := code\<rparr>"

text \<open>
  Modelled from the spec: running a callable on the loop's thread. Its posts join the
  back of the queue in order (section 4.4), then its quit, if any, is recorded
  (section 4.1). Running a deferred call is running its callable; the release call
  asks nothing of the loop.
\<close>

definition invoke :: "callback \<Rightarrow> EventLoop \<Rightarrow> EventLoop" where
  "invoke cb l =
     (let l1 = l\<lparr>events := events l @ posted cb\<rparr>
      in case quits cb of None \<Rightarrow> l1 | Some code \<Rightarrow> quit code l1)"

fun run :: "Event \<Rightarrow> EventLoop \<Rightarrow> EventLoop" where
  "run (SignalEvent cb) l = invoke cb l"
| "run (DeleteLaterEvent del) l = l"

fun enqueued_by :: "Event \<Rightarrow> Event list" where
  "enqueued_by (SignalEvent cb) = posted cb"
| "enqueued_by (DeleteLaterEvent del) = []"

text \<open>What an iteration does, in the order it does it, and the deferred calls among it.\<close>

datatype fired =
    is_Deferred: Deferred Event
  | is_TimerFired: TimerFired int
  | is_SocketFired: SocketFired int int

fun executed :: "fired \<Rightarrow> Event list" where
  "executed (Deferred e) = [e]"
| "executed x = []"

text \<open>
  Modelled from the spec: section 4.1, step (3): drain the deferred-call queue
  completely, executing and discarding each entry in FIFO order.
\<close>

function drain :: "EventLoop \<Rightarrow> EventLoop \<times> fired list" where
  "drain l =
     (case events l of
        [] \<Rightarrow> (l, [])
      | e # q \<Rightarrow>
          (case drain (run e (l\<lparr>events := q\<rparr>)) of
             (l', tr) \<Rightarrow> (l', Deferred e # tr)))"
  by pat_completeness auto
termination
proof (relation "measure (\<lambda>l. size_list size (events l))")
  show "wf (measure (\<lambda>l. size_list size (events l)))" by simp
next
  fix l :: EventLoop and e q
  assume ev: "events l = e # q"
  have "size_list size (events (run e (l\<lparr>events := q\<rparr>))) < size_list size (e # q)"
  proof (cases e)
    case (SignalEvent cb)
    obtain n es c where cb: "cb = Callback n es c" by (cases cb)
    show ?thesis
      using SignalEvent cb by (cases c) (simp_all add: invoke_def quit_def Let_def)
  next
    case (DeleteLaterEvent d)
    then show ?thesis by simp
  qed
  then show "(run e (l\<lparr>events := q\<rparr>), l) \<in> measure (\<lambda>l. size_list size (events l))"
    using ev by simp
qed

declare drain.simps [simp del]

text \<open>
  Modelled from the spec: section 4.1, step (4): fire all timers whose expiration has
  passed, in table order, rescheduling a repeating one and removing a single-shot one
  before its callback is invoked.
\<close>

fun fire_timers ::
  "int \<Rightarrow> (int \<times> TimerRegistration) list \<Rightarrow> EventLoop \<Rightarrow> EventLoop \<times> fired list" where
  "fire_timers now [] l = (l, [])"
| "fire_timers now ((i, t) # ts) l =
     (if expires t \<le> now then
        (case fire_timers now ts
                (invoke (timerCallback t)
                   (if repeat t then reschedule i l else unregisterTimer i l)) of
           (l', tr) \<Rightarrow> (l', TimerFired i # tr))
      else fire_timers now ts l)"

text \<open>
  Modelled from the spec: section 4.1, step (5): dispatch the callback of every socket
  with fired readiness bits, removing a one-shot registration first.
  \<open>ready\<close> is what the poll reported: descriptors with their fired bits.
\<close>

fun dispatch_sockets :: "(int \<times> int) list \<Rightarrow> EventLoop \<Rightarrow> EventLoop \<times> fired list" where
  "dispatch_sockets [] l = (l, [])"
| "dispatch_sockets ((fd, what) # rs) l =
     (case map_of (sockets l) fd of
        None \<Rightarrow> dispatch_sockets rs l
      | Some r \<Rightarrow>
          if what = 0 then dispatch_sockets rs l
          else
            (case dispatch_sockets rs
                    (invoke (socketCallback r)
                       (if modeMask r AND SocketOneShot \<noteq> 0 then unregisterSocket fd l else l)) of
               (l', tr) \<Rightarrow> (l', SocketFired fd what # tr)))"

text \<open>
  Modelled from the spec: section 4.1, steps (3) to (5) of one iteration, after the poll
  returned at time \<open>now\<close>. The registration tables are read as they stand
  after step (1).
\<close>

definition iteration :: "int \<Rightarrow> (int \<times> int) list \<Rightarrow> EventLoop \<Rightarrow> EventLoop \<times> fired list" where
  "iteration now ready l =
     (case drain l of
        (l1, tr1) \<Rightarrow>
          (case fire_timers now (timers l1) l1 of
             (l2, tr2) \<Rightarrow>
               (case dispatch_sockets ready l2 of
                  (l3, tr3) \<Rightarrow> (l3, tr1 @ tr2 @ tr3))))"

text \<open>
  Modelled from the spec: sections 4.1 and 4.4, \<^verbatim>\<open>post\<close> and
  \<^verbatim>\<open>quit\<close> are callable from any thread. What any thread may ask
  of a loop while it is blocked in the poll; the per-instance lock puts the requests in
  one order. Each is tagged with the thread that made it.
\<close>

datatype request = Post Event | Quit int

fun serve :: "nat \<times> request \<Rightarrow> EventLoop \<Rightarrow> EventLoop" where
  "serve (producer, Post e) l = post e l"
| "serve (producer, Quit code) l = quit code l"

text \<open>
  Modelled from the spec: section 4.1, step (2). The poll primitive of one iteration
  either fails or returns at a time \<open>now\<close>, after the requests made
  meanwhile, with the descriptors that fired. A run of \<^verbatim>\<open>exec\<close>
  meets a sequence of these; when the sequence ends the loop is blocked in the poll.
\<close>

datatype poll = PollFailed | Woken int "(nat \<times> request) list" "(int \<times> int) list"

fun deadline_reached :: "int \<Rightarrow> int \<Rightarrow> poll \<Rightarrow> bool" where
  "deadline_reached start timeout PollFailed = False"
| "deadline_reached start timeout (Woken now reqs ready) = (0 \<le> timeout \<and> start + timeout \<le> now)"

datatype outcome =
    NotOwningThread
  | Blocked EventLoop "fired list"
  | Returned nat EventLoop "fired list"

text \<open>
  Modelled from the spec: section 4.1, step (6): if quit was requested, return
  \<open>Success\<close> with the stored code; if the overall timeout elapsed with no
  quit, return \<open>Timeout\<close>; a failure of the poll primitive returns
  \<open>GeneralError\<close>. A negative timeout is infinite.
\<close>

fun exec_loop :: "int \<Rightarrow> int \<Rightarrow> poll list \<Rightarrow> EventLoop \<Rightarrow> fired list \<Rightarrow> outcome" where
  "exec_loop start timeout [] l tr = Blocked l tr"
| "exec_loop start timeout (PollFailed # ps) l tr = Returned GeneralError l tr"
| "exec_loop start timeout (Woken now reqs ready # ps) l tr =
     (case iteration now ready (fold serve reqs l) of
        (l', tr') \<Rightarrow>
          if quitting l' then Returned Success l' (tr @ tr')
          else if 0 \<le> timeout \<and> start + timeout \<le> now then Returned Timeout l' (tr @ tr')
          else exec_loop start timeout ps l' (tr @ tr'))"

text \<open>
  Modelled from the spec: section 4.1, \<^verbatim>\<open>exec(timeout)\<close> called
  by thread \<open>tid\<close> when the clock shows \<open>start\<close>: it must run on
  the owning thread and reports an error, returning at once, from any other.
\<close>

definition exec :: "nat \<Rightarrow> int \<Rightarrow> int \<Rightarrow> poll list \<Rightarrow> EventLoop \<Rightarrow> outcome" where
  "exec tid start timeout ps l =
     (if tid \<noteq> threadId l then NotOwningThread else exec_loop start timeout ps l [])"

text \<open>
  What a run shows of the \<^verbatim>\<open>quit\<close> calls made in it, in the order they are made: the
  code a callable quits with when it runs, the one a deferred call or a request
  carries, the callables a socket dispatch invokes (as \<open>dispatch_sockets\<close> finds them
  in the table), the quit calls of one iteration (deferred calls, then timers, then
  sockets) and those of a run of \<^verbatim>\<open>exec\<close> up to its return. \<open>stored\<close> is what the
  calls leave of the run state and quit code: the last code, with quit requested.
\<close>

fun quit_call :: "callback \<Rightarrow> int list" where
  "quit_call (Callback label es None) = []"
| "quit_call (Callback label es (Some code)) = [code]"

fun event_quit_calls :: "Event \<Rightarrow> int list" where
  "event_quit_calls (SignalEvent cb) = quit_call cb"
| "event_quit_calls (DeleteLaterEvent del) = []"

fun request_quit_calls :: "nat \<times> request \<Rightarrow> int list" where
  "request_quit_calls (producer, Quit code) = [code]"
| "request_quit_calls (producer, Post e) = []"

fun dispatched :: "(int \<times> int) list \<Rightarrow> (int \<times> SocketRegistration) list \<Rightarrow> callback list" where
  "dispatched [] table = []"
| "dispatched ((fd, what) # rs) table =
     (case map_of table fd of
        None \<Rightarrow> dispatched rs table
      | Some r \<Rightarrow>
          if what = 0 then dispatched rs table
          else socketCallback r
               # dispatched rs (if modeMask r AND SocketOneShot \<noteq> 0
                                then filter (\<lambda>e. fst e \<noteq> fd) table else table))"

definition iteration_quit_calls :: "int \<Rightarrow> (int \<times> int) list \<Rightarrow> EventLoop \<Rightarrow> int list" where
  "iteration_quit_calls now ready l =
     concat (map event_quit_calls (concat (map executed (snd (drain l)))))
     @ concat (map (\<lambda>e. quit_call (timerCallback (snd e)))
                 (filter (\<lambda>e. expires (snd e) \<le> now) (timers l)))
     @ concat (map quit_call (dispatched ready (sockets l)))"

fun exec_quit_calls :: "int \<Rightarrow> int \<Rightarrow> poll list \<Rightarrow> EventLoop \<Rightarrow> int list" where
  "exec_quit_calls start timeout [] l = []"
| "exec_quit_calls start timeout (PollFailed # ps) l = []"
| "exec_quit_calls start timeout (Woken now reqs ready # ps) l =
     concat (map request_quit_calls reqs)
     @ iteration_quit_calls now ready (fold serve reqs l)
     @ (if quitting (fst (iteration now ready (fold serve reqs l)))
           \<or> (0 \<le> timeout \<and> start + timeout \<le> now)
        then []
        else exec_quit_calls start timeout ps (fst (iteration now ready (fold serve reqs l))))"

definition stored :: "int list \<Rightarrow> bool \<times> int \<Rightarrow> bool \<times> int" where
  "stored codes s = (if codes = [] then s else (True, last codes))"

section \<open>Properties of the Serializer\<close>






section \<open>Properties of the Deserializer\<close>

text \<open>
  C9, as amended. For a memory-backed Deserializer and every \<open>len\<close> with
  \<open>0 \<le> len\<close> and \<open>pos + len \<le> length\<close>: \<^verbatim>\<open>peek\<close> copies exactly the \<open>len\<close> bytes at
  the position, the bytes an immediately following \<^verbatim>\<open>read\<close> returns, and leaves the
  Deserializer as it was; \<^verbatim>\<open>read\<close> copies the same bytes, advances \<open>pos()\<close> by exactly
  \<open>len\<close> and changes nothing else; the Deserializer stays memory-backed.
\<close>

theorem Deserializer_peek_then_read:
  assumes "memory_backed s" and "0 \<le> len" and "mPos s + len \<le> mLength s"
  shows "\<exists>bs. Deserializer_peek len s = Inr (bs, len, s)
           \<and> Deserializer_read len s = Inr (bs, len, s\<lparr>mPos := mPos s + len\<rparr>)
           \<and> int (length bs) = len
           \<and> mData s = Some (take (nat (mPos s)) (the (mData s)) @ bs
                               @ drop (nat (mPos s + len)) (the (mData s)))
           \<and> Deserializer_pos s = mPos s
           \<and> Deserializer_pos (s\<lparr>mPos := mPos s + len\<rparr>) = Deserializer_pos s + len
           \<and> memory_backed (s\<lparr>mPos := mPos s + len\<rparr>)"
proof -
  obtain d where d: "mData s = Some d" and f: "mFile s = None"
    and p: "0 \<le> mPos s" "mPos s \<le> mLength s" "mLength s \<le> int (length d)" "mLength s \<le> INT_MAX"
    using assms(1) by (auto simp: memory_backed_def split: option.splits)
  have sz: "to_size_t len = nat len"
    using assms(2,3) p by (simp add: to_size_t_def INT_MAX_def)
  have rng: "in_int_range (mPos s + len)"
    using assms(2,3) p by (simp add: in_int_range_def INT_MAX_def INT_MIN_def)
  let ?bs = "take (nat len) (drop (nat (mPos s)) d)"
  have cp: "memcpy_from d (mPos s) (nat len) = Some ?bs"
    using assms(2,3) p by (simp add: memcpy_from_def)
  have ln: "int (length ?bs) = len"
    using assms(2,3) p by simp
  have pk: "Deserializer_peek len s = Inr (?bs, len, s)"
    using d sz rng cp assms(3) by (simp add: Deserializer_peek_def)
  have rd: "Deserializer_read len s = Inr (?bs, len, s\<lparr>mPos := mPos s + len\<rparr>)"
    using d sz rng cp assms(3) by (simp add: Deserializer_read_def)
  have "?bs @ drop (nat len) (drop (nat (mPos s)) d) = drop (nat (mPos s)) d"
    by (rule append_take_drop_id)
  moreover have "drop (nat len) (drop (nat (mPos s)) d) = drop (nat (mPos s + len)) d"
    using assms(2) p by (simp add: nat_add_distrib add.commute)
  moreover have "take (nat (mPos s)) d @ drop (nat (mPos s)) d = d"
    by (rule append_take_drop_id)
  ultimately have "d = take (nat (mPos s)) d @ ?bs @ drop (nat (mPos s + len)) d"
    by simp
  then have sp: "mData s = Some (take (nat (mPos s)) (the (mData s)) @ ?bs
                               @ drop (nat (mPos s + len)) (the (mData s)))"
    using d by simp
  have ps: "Deserializer_pos s = mPos s"
    "Deserializer_pos (s\<lparr>mPos := mPos s + len\<rparr>) = Deserializer_pos s + len"
    using f by (simp_all add: Deserializer_pos_def)
  have mb: "memory_backed (s\<lparr>mPos := mPos s + len\<rparr>)"
    using d f p assms(2,3) by (simp add: memory_backed_def)
  from pk rd ln sp ps mb show ?thesis by blast
qed

theorem Deserializer_peek_then_read_witness:
  "Deserializer_peek 2 (Deserializer_mem (Some [7, 8, 9]) 3 ''k'')
     = Inr ([7, 8], 2, Deserializer_mem (Some [7, 8, 9]) 3 ''k'')
   \<and> Deserializer_read 2 (Deserializer_mem (Some [7, 8, 9]) 3 ''k'')
     = Inr ([7, 8], 2, (Deserializer_mem (Some [7, 8, 9]) 3 ''k'')\<lparr>mPos := 2\<rparr>)
   \<and> Deserializer_pos ((Deserializer_mem (Some [7, 8, 9]) 3 ''k'')\<lparr>mPos := 2\<rparr>) = 2"
proof -
  let ?s = "Deserializer_mem (Some [7, 8, 9]) 3 ''k''"
  have h1: "memory_backed ?s"
    by (simp add: memory_backed_def Deserializer_mem_def INT_MAX_def)
  have h2: "(0::int) \<le> 2" by simp
  have h3: "mPos ?s + 2 \<le> mLength ?s" by (simp add: Deserializer_mem_def)
  from Deserializer_peek_then_read [OF h1 h2 h3]
  obtain bs where pk: "Deserializer_peek 2 ?s = Inr (bs, 2, ?s)"
    and rd: "Deserializer_read 2 ?s = Inr (bs, 2, ?s\<lparr>mPos := mPos ?s + 2\<rparr>)"
    and ps: "Deserializer_pos (?s\<lparr>mPos := mPos ?s + 2\<rparr>) = Deserializer_pos ?s + 2"
      "Deserializer_pos ?s = mPos ?s"
    by blast
  have bs: "bs = [7, 8]"
    using pk by (simp add: Deserializer_peek_def Deserializer_mem_def in_int_range_def
        INT_MAX_def INT_MIN_def to_size_t_def memcpy_from_def)
  have z: "mPos ?s = 0" by (simp add: Deserializer_mem_def)
  from pk rd ps bs z show ?thesis by simp
qed

text \<open>
  C9 as stated fails for a negative \<open>len\<close>, which satisfies \<open>pos + len \<le> length\<close>:
  \<^verbatim>\<open>if (len)\<close> is taken, the assertion holds, and \<^verbatim>\<open>memcpy\<close> is asked for
  \<open>2 ^ 64 - 1\<close> bytes of a three-byte buffer. Neither call copies bytes and returns.
\<close>

theorem Deserializer_negative_len_counterexample:
  "memory_backed (Deserializer_mem (Some [7, 8, 9]) 3 ''k'')
   \<and> mPos (Deserializer_mem (Some [7, 8, 9]) 3 ''k'') + (- 1)
       \<le> mLength (Deserializer_mem (Some [7, 8, 9]) 3 ''k'')
   \<and> Deserializer_peek (- 1) (Deserializer_mem (Some [7, 8, 9]) 3 ''k'') = Inl UndefinedBehaviour
   \<and> Deserializer_read (- 1) (Deserializer_mem (Some [7, 8, 9]) 3 ''k'') = Inl UndefinedBehaviour"
  by (simp add: memory_backed_def Deserializer_peek_def Deserializer_read_def Deserializer_mem_def
      in_int_range_def INT_MAX_def INT_MIN_def to_size_t_def memcpy_from_def)

section \<open>Properties of SharedMemory\<close>










text \<open>
  C10. \<^verbatim>\<open>attach\<close> is idempotent and failure-atomic, and \<^verbatim>\<open>detach\<close> on an unattached
  instance does nothing. With a mapping in place (\<open>mAddr\<close> not null) \<^verbatim>\<open>attach\<close> returns
  the address it holds and makes no call, whatever its flag and address arguments.
  Without one it makes exactly one \<^verbatim>\<open>shmat\<close> call; when that fails it returns the null
  address and the instance is as before, \<open>mAddr\<close> null; when it succeeds the address
  is returned and stored. \<^verbatim>\<open>detach\<close> without a mapping leaves instance and host alone.
\<close>

theorem SharedMemory_attach_detach:
  fixes os :: "'k os"
  shows "(mAddr m \<noteq> 0 \<longrightarrow> attach os Write flag address (m, h) = (mAddr m, m, h))
       \<and> (mAddr m = 0 \<longrightarrow>
            (case attach os Write flag address (m, h) of
               (a, m', h') \<Rightarrow>
                 \<exists>flg r. calls h' = calls h @ [(Shmat (mShm m) address flg, r)]
                   \<and> (r = - 1 \<longrightarrow> a = 0 \<and> m' = m \<and> mAddr m' = 0)
                   \<and> (r \<noteq> - 1 \<longrightarrow> a = r \<and> m' = m\<lparr>mAddr := r\<rparr>)))
       \<and> (mAddr m = 0 \<longrightarrow> detach os (m, h) = (m, h))"
  by (auto simp: attach_def detach_def sys_def Let_def error_log_def split: prod.splits if_splits)

text \<open>
  On the small kernel, with the segment 4 in place: an \<^verbatim>\<open>attach\<close> on a mapped instance
  returns the address it holds without a call; where mappings cannot be made,
  \<^verbatim>\<open>attach\<close> returns null and \<open>mAddr\<close> stays null; \<^verbatim>\<open>detach\<close> then does nothing.
\<close>

theorem SharedMemory_attach_detach_witness:
  "attach sysv_os 1 1 0
     (\<lparr>mShm = 4, mOwner = True, mAddr = 20480, mKey = 7, mSize = 100\<rparr>,
      \<lparr>kernel = \<lparr>shm_of_key = [7 \<mapsto> 4], seg_of_shm = [4 \<mapsto> (7, 1000)], removed = [],
                 next_shmid = 5, euid = 1000, can_map = True\<rparr>,
       calls = [], errors = 0\<rparr>)
   = (20480, \<lparr>mShm = 4, mOwner = True, mAddr = 20480, mKey = 7, mSize = 100\<rparr>,
      \<lparr>kernel = \<lparr>shm_of_key = [7 \<mapsto> 4], seg_of_shm = [4 \<mapsto> (7, 1000)], removed = [],
                 next_shmid = 5, euid = 1000, can_map = True\<rparr>,
       calls = [], errors = 0\<rparr>)
   \<and> attach sysv_os 1 0 0
     (\<lparr>mShm = 4, mOwner = True, mAddr = 0, mKey = 7, mSize = 100\<rparr>,
      \<lparr>kernel = \<lparr>shm_of_key = [7 \<mapsto> 4], seg_of_shm = [4 \<mapsto> (7, 1000)], removed = [],
                 next_shmid = 5, euid = 1000, can_map = False\<rparr>,
       calls = [], errors = 0\<rparr>)
   = (0, \<lparr>mShm = 4, mOwner = True, mAddr = 0, mKey = 7, mSize = 100\<rparr>,
      \<lparr>kernel = \<lparr>shm_of_key = [7 \<mapsto> 4], seg_of_shm = [4 \<mapsto> (7, 1000)], removed = [],
                 next_shmid = 5, euid = 1000, can_map = False\<rparr>,
       calls = [(Shmat 4 0 4096, - 1)], errors = 1\<rparr>)
   \<and> detach sysv_os
     (\<lparr>mShm = 4, mOwner = True, mAddr = 0, mKey = 7, mSize = 100\<rparr>,
      \<lparr>kernel = \<lparr>shm_of_key = [7 \<mapsto> 4], seg_of_shm = [4 \<mapsto> (7, 1000)], removed = [],
                 next_shmid = 5, euid = 1000, can_map = False\<rparr>,
       calls = [], errors = 0\<rparr>)
   = (\<lparr>mShm = 4, mOwner = True, mAddr = 0, mKey = 7, mSize = 100\<rparr>,
      \<lparr>kernel = \<lparr>shm_of_key = [7 \<mapsto> 4], seg_of_shm = [4 \<mapsto> (7, 1000)], removed = [],
                 next_shmid = 5, euid = 1000, can_map = False\<rparr>,
       calls = [], errors = 0\<rparr>)"
proof -
  let ?k = "\<lparr>shm_of_key = [7 \<mapsto> 4], seg_of_shm = [4 \<mapsto> (7, 1000)], removed = [],
                 next_shmid = 5, euid = 1000, can_map = True\<rparr>"
  let ?kf = "\<lparr>shm_of_key = [7 \<mapsto> 4], seg_of_shm = [4 \<mapsto> (7, 1000)], removed = [],
                 next_shmid = 5, euid = 1000, can_map = False\<rparr>"
  let ?ma = "\<lparr>mShm = 4, mOwner = True, mAddr = 20480, mKey = 7, mSize = 100\<rparr>"
  let ?m0 = "\<lparr>mShm = 4, mOwner = True, mAddr = 0, mKey = 7, mSize = 100\<rparr>"
  have 1: "attach sysv_os 1 1 0 (?ma, \<lparr>kernel = ?k, calls = [], errors = 0\<rparr>)
             = (20480, ?ma, \<lparr>kernel = ?k, calls = [], errors = 0\<rparr>)"
    using SharedMemory_attach_detach [of ?ma sysv_os 1 1 0 "\<lparr>kernel = ?k, calls = [], errors = 0\<rparr>"]
    by simp
  have 2: "attach sysv_os 1 0 0 (?m0, \<lparr>kernel = ?kf, calls = [], errors = 0\<rparr>)
             = (0, ?m0, \<lparr>kernel = ?kf, calls = [(Shmat 4 0 4096, - 1)], errors = 1\<rparr>)"
    by (simp add: attach_def sys_def error_log_def SHM_RDONLY_def)
  have 3: "detach sysv_os (?m0, \<lparr>kernel = ?kf, calls = [], errors = 0\<rparr>)
             = (?m0, \<lparr>kernel = ?kf, calls = [], errors = 0\<rparr>)"
    using SharedMemory_attach_detach [of ?m0 sysv_os 1 0 0 "\<lparr>kernel = ?kf, calls = [], errors = 0\<rparr>"]
    by simp
  from 1 2 3 show ?thesis by (intro conjI)
qed

section \<open>Properties of the registry\<close>

lemma release_retain: "release a (retain a p) = p"
  by (simp add: release_def retain_def)

lemma mainEventLoop_eq:
  "mainEventLoop p =
     (case mainLoop p of
        None \<Rightarrow> (None, p)
      | Some a \<Rightarrow> if 0 < use_count p a then (Some a, retain a p) else (None, p))"
  by (simp add: mainEventLoop_def lock_def split: option.splits)

lemma release_funpow:
  "(release a ^^ n) p = p\<lparr>use_count := (use_count p)(a := use_count p a - n)\<rparr>"
proof (induction n)
  case 0
  show ?case by simp
next
  case (Suc n)
  have "(release a ^^ Suc n) p = release a ((release a ^^ n) p)" by simp
  also have "\<dots> = release a (p\<lparr>use_count := (use_count p)(a := use_count p a - n)\<rparr>)"
    by (simp only: Suc.IH)
  also have "\<dots> = p\<lparr>use_count := (use_count p)(a := use_count p a - Suc n)\<rparr>"
    by (simp add: release_def)
  finally show ?case .
qed

text \<open>
  C5. \<^verbatim>\<open>isMainThread()\<close>, called by the thread \<open>tid\<close>, returns true if and only if
  \<open>mainLoop\<close> refers to an instance that is alive and \<open>tid\<close> equals the \<open>threadId\<close>
  stored in that instance. The call always returns, and the process is afterwards as
  it was before: the two temporary owners are gone again.
\<close>

theorem isMainThread_iff:
  "isMainThread tid p =
     Inr ((\<exists>a. mainLoop p = Some a \<and> 0 < use_count p a \<and> tid = threadId (loops p a)), p)"
  by (auto simp: isMainThread_def mainEventLoop_def lock_def retain_def release_def
      split: option.splits)

text \<open>
  The thread 1 owns the main instance at address 5; the thread 2 does not; with the
  instance dead, no thread is the main thread.
\<close>

theorem isMainThread_iff_witness:
  "isMainThread 1
     \<lparr>loops = (\<lambda>a. \<lparr>threadId = 1, nextId = 1, flgs = 1, events = [], timers = [], sockets = [],
                     quitting = False, quitCode = 0\<rparr>),
      use_count = (\<lambda>a. if a = 5 then 2 else 0), mainLoop = Some 5,
      localLoop = (\<lambda>t. None), heap = {}, reported = []\<rparr>
   = Inr (True,
     \<lparr>loops = (\<lambda>a. \<lparr>threadId = 1, nextId = 1, flgs = 1, events = [], timers = [], sockets = [],
                     quitting = False, quitCode = 0\<rparr>),
      use_count = (\<lambda>a. if a = 5 then 2 else 0), mainLoop = Some 5,
      localLoop = (\<lambda>t. None), heap = {}, reported = []\<rparr>)
   \<and> isMainThread 2
     \<lparr>loops = (\<lambda>a. \<lparr>threadId = 1, nextId = 1, flgs = 1, events = [], timers = [], sockets = [],
                     quitting = False, quitCode = 0\<rparr>),
      use_count = (\<lambda>a. if a = 5 then 2 else 0), mainLoop = Some 5,
      localLoop = (\<lambda>t. None), heap = {}, reported = []\<rparr>
   = Inr (False,
     \<lparr>loops = (\<lambda>a. \<lparr>threadId = 1, nextId = 1, flgs = 1, events = [], timers = [], sockets = [],
                     quitting = False, quitCode = 0\<rparr>),
      use_count = (\<lambda>a. if a = 5 then 2 else 0), mainLoop = Some 5,
      localLoop = (\<lambda>t. None), heap = {}, reported = []\<rparr>)
   \<and> isMainThread 1
     \<lparr>loops = (\<lambda>a. \<lparr>threadId = 1, nextId = 1, flgs = 1, events = [], timers = [], sockets = [],
                     quitting = False, quitCode = 0\<rparr>),
      use_count = (\<lambda>a. 0), mainLoop = Some 5,
      localLoop = (\<lambda>t. None), heap = {}, reported = []\<rparr>
   = Inr (False,
     \<lparr>loops = (\<lambda>a. \<lparr>threadId = 1, nextId = 1, flgs = 1, events = [], timers = [], sockets = [],
                     quitting = False, quitCode = 0\<rparr>),
      use_count = (\<lambda>a. 0), mainLoop = Some 5,
      localLoop = (\<lambda>t. None), heap = {}, reported = []\<rparr>)"
proof -
  let ?l = "\<lparr>threadId = 1, nextId = 1, flgs = 1, events = [], timers = [], sockets = [],
                     quitting = False, quitCode = 0\<rparr>"
  let ?p = "\<lparr>loops = (\<lambda>a. ?l),
      use_count = (\<lambda>a. if a = 5 then 2 else 0), mainLoop = Some (5::nat),
      localLoop = (\<lambda>t. None), heap = {}, reported = []\<rparr>"
  let ?q = "\<lparr>loops = (\<lambda>a. ?l),
      use_count = (\<lambda>a. 0), mainLoop = Some (5::nat),
      localLoop = (\<lambda>t. None), heap = {}, reported = []\<rparr>"
  have 1: "isMainThread 1 ?p = Inr (True, ?p)"
    using isMainThread_iff [of 1 ?p] by simp
  have 2: "isMainThread 2 ?p = Inr (False, ?p)"
    using isMainThread_iff [of 2 ?p] by simp
  have 3: "isMainThread 1 ?q = Inr (False, ?q)"
    using isMainThread_iff [of 1 ?q] by simp
  from 1 2 3 show ?thesis by (intro conjI)
qed

text \<open>
  C6. \<^verbatim>\<open>mainEventLoop()\<close> returns a shared handle to the main instance when
  \<open>mainLoop\<close> refers to one that is alive, and none otherwise. The handle is an owner
  of its own, and giving it up restores the process. The reference of the registry
  is weak: it is no owner, so once the owners the instance has are gone the instance
  is dead; \<open>mainLoop\<close> still holds the address, nobody having cleared it, yet every
  later lookup returns none and adds no owner.
\<close>

theorem mainEventLoop_weak:
  "fst (mainEventLoop p)
     = (case mainLoop p of
          None \<Rightarrow> None
        | Some a \<Rightarrow> if 0 < use_count p a then Some a else None)
   \<and> (\<forall>a. fst (mainEventLoop p) = Some a \<longrightarrow>
          use_count (snd (mainEventLoop p)) a = Suc (use_count p a)
        \<and> release a (snd (mainEventLoop p)) = p)
   \<and> (fst (mainEventLoop p) = None \<longrightarrow> snd (mainEventLoop p) = p)
   \<and> (\<forall>a. mainLoop p = Some a \<longrightarrow>
          use_count ((release a ^^ use_count p a) p) a = 0
        \<and> mainLoop ((release a ^^ use_count p a) p) = Some a
        \<and> mainEventLoop ((release a ^^ use_count p a) p)
            = (None, (release a ^^ use_count p a) p))"
proof -
  have 1: "fst (mainEventLoop p)
     = (case mainLoop p of
          None \<Rightarrow> None
        | Some a \<Rightarrow> if 0 < use_count p a then Some a else None)"
    by (simp add: mainEventLoop_eq split: option.splits)
  have 2: "\<forall>a. fst (mainEventLoop p) = Some a \<longrightarrow>
          use_count (snd (mainEventLoop p)) a = Suc (use_count p a)
        \<and> release a (snd (mainEventLoop p)) = p"
  proof (intro allI impI)
    fix a assume "fst (mainEventLoop p) = Some a"
    then have s: "snd (mainEventLoop p) = retain a p"
      by (auto simp: mainEventLoop_eq split: option.splits if_splits)
    show "use_count (snd (mainEventLoop p)) a = Suc (use_count p a)
        \<and> release a (snd (mainEventLoop p)) = p"
      unfolding s by (simp add: release_retain) (simp add: retain_def)
  qed
  have 3: "fst (mainEventLoop p) = None \<longrightarrow> snd (mainEventLoop p) = p"
    by (auto simp: mainEventLoop_eq split: option.splits if_splits)
  have 4: "\<forall>a. mainLoop p = Some a \<longrightarrow>
          use_count ((release a ^^ use_count p a) p) a = 0
        \<and> mainLoop ((release a ^^ use_count p a) p) = Some a
        \<and> mainEventLoop ((release a ^^ use_count p a) p)
            = (None, (release a ^^ use_count p a) p)"
    by (simp add: release_funpow mainEventLoop_eq)
  from 1 2 3 4 show ?thesis by (intro conjI)
qed

text \<open>
  A main instance at address 5 with two owners: the lookup returns it and counts as a
  third owner; after the two owners released it the lookup returns none, with
  \<open>mainLoop\<close> untouched.
\<close>

theorem mainEventLoop_weak_witness:
  "fst (mainEventLoop
     \<lparr>loops = (\<lambda>a. \<lparr>threadId = 1, nextId = 1, flgs = 1, events = [], timers = [], sockets = [],
                     quitting = False, quitCode = 0\<rparr>),
      use_count = (\<lambda>a. if a = 5 then 2 else 0), mainLoop = Some 5,
      localLoop = (\<lambda>t. None), heap = {}, reported = []\<rparr>) = Some 5
   \<and> use_count (snd (mainEventLoop
     \<lparr>loops = (\<lambda>a. \<lparr>threadId = 1, nextId = 1, flgs = 1, events = [], timers = [], sockets = [],
                     quitting = False, quitCode = 0\<rparr>),
      use_count = (\<lambda>a. if a = 5 then 2 else 0), mainLoop = Some 5,
      localLoop = (\<lambda>t. None), heap = {}, reported = []\<rparr>)) 5 = 3
   \<and> fst (mainEventLoop ((release 5 ^^ 2)
     \<lparr>loops = (\<lambda>a. \<lparr>threadId = 1, nextId = 1, flgs = 1, events = [], timers = [], sockets = [],
                     quitting = False, quitCode = 0\<rparr>),
      use_count = (\<lambda>a. if a = 5 then 2 else 0), mainLoop = Some 5,
      localLoop = (\<lambda>t. None), heap = {}, reported = []\<rparr>)) = None"
proof -
  let ?p = "\<lparr>loops = (\<lambda>a. \<lparr>threadId = 1, nextId = 1, flgs = 1, events = [], timers = [], sockets = [],
                     quitting = False, quitCode = 0\<rparr>),
      use_count = (\<lambda>a. if a = 5 then 2 else 0), mainLoop = Some (5::nat),
      localLoop = (\<lambda>t. None), heap = {}, reported = []\<rparr>"
  note w = mainEventLoop_weak [of ?p]
  have a: "fst (mainEventLoop ?p) = Some 5"
    using w by simp
  from w a have b: "use_count (snd (mainEventLoop ?p)) 5 = Suc (use_count ?p 5)"
    by blast
  have m: "mainLoop ?p = Some 5" by simp
  from w m have "mainEventLoop ((release 5 ^^ use_count ?p 5) ?p)
            = (None, (release 5 ^^ use_count ?p 5) ?p)"
    by blast
  then have c: "fst (mainEventLoop ((release 5 ^^ 2) ?p)) = None"
    by simp
  from a b c show ?thesis by simp
qed

lemma release_post_retain:
  "release a (post_to a e (retain a p)) = post_to a e p"
  by (simp add: release_def retain_def post_to_def)

text \<open>
  C1. \<^verbatim>\<open>deleteLater(v)\<close>, called by the thread \<open>tid\<close>, posts the release call
  \<open>DeleteLaterEvent v\<close> to the back of the queue of the loop bound to \<open>tid\<close> if there
  is one alive, else of the main loop if there is one alive; all else in the process
  stays as it was. If neither loop is reachable the message \<^verbatim>\<open>No event loop!\<close> is
  reported and no queue holds an event for \<open>v\<close>. In no case does the call destroy
  \<open>v\<close>: the heap is unchanged. Executing the release call destroys \<open>v\<close>.
\<close>

theorem deleteLater_posts_release_call:
  "deleteLater tid v p =
     (case lock p (localLoop p tid) of
        Some a \<Rightarrow> post_to a (DeleteLaterEvent v) p
      | None \<Rightarrow>
          (case lock p (mainLoop p) of
             Some m \<Rightarrow> post_to m (DeleteLaterEvent v) p
           | None \<Rightarrow> error ''No event loop!'' p))
   \<and> heap (deleteLater tid v p) = heap p
   \<and> (\<forall>a. events (loops (post_to a (DeleteLaterEvent v) p) a)
            = events (loops p a) @ [DeleteLaterEvent v])
   \<and> loops (error ''No event loop!'' p) = loops p
   \<and> reported (error ''No event loop!'' p) = reported p @ [''No event loop!'']
   \<and> v \<notin> Event_exec (DeleteLaterEvent v) alive
   \<and> Event_exec (DeleteLaterEvent v) alive - {v} = alive - {v}"
proof -
  have 1: "deleteLater tid v p =
     (case lock p (localLoop p tid) of
        Some a \<Rightarrow> post_to a (DeleteLaterEvent v) p
      | None \<Rightarrow>
          (case lock p (mainLoop p) of
             Some m \<Rightarrow> post_to m (DeleteLaterEvent v) p
           | None \<Rightarrow> error ''No event loop!'' p))"
    by (simp add: deleteLater_def eventLoop_def mainEventLoop_def release_post_retain
        split: option.splits)
  have 2: "heap (deleteLater tid v p) = heap p"
    unfolding 1 by (simp add: post_to_def error_def split: option.splits)
  have 3: "\<forall>a. events (loops (post_to a (DeleteLaterEvent v) p) a)
            = events (loops p a) @ [DeleteLaterEvent v]"
    by (simp add: post_to_def post_def)
  have 4: "loops (error ''No event loop!'' p) = loops p"
    "reported (error ''No event loop!'' p) = reported p @ [''No event loop!'']"
    by (simp_all add: error_def)
  have 5: "v \<notin> Event_exec (DeleteLaterEvent v) alive"
    "Event_exec (DeleteLaterEvent v) alive - {v} = alive - {v}"
    by simp_all
  from 1 2 3 4 5 show ?thesis by (intro conjI)
qed

text \<open>
  The thread 9 has no loop of its own. With the main instance at address 5 alive, the
  release call for the value 42 joins the queue of that instance; with the main
  instance dead, the error is reported and no queue changes. Either way 42 stays on
  the heap.
\<close>

theorem deleteLater_posts_release_call_witness:
  "events (loops (deleteLater 9 42
     \<lparr>loops = (\<lambda>a. \<lparr>threadId = 1, nextId = 1, flgs = 1, events = [], timers = [], sockets = [],
                     quitting = False, quitCode = 0\<rparr>),
      use_count = (\<lambda>a. if a = 5 then 2 else 0), mainLoop = Some 5,
      localLoop = (\<lambda>t. None), heap = {42}, reported = []\<rparr>) 5) = [DeleteLaterEvent 42]
   \<and> heap (deleteLater 9 42
     \<lparr>loops = (\<lambda>a. \<lparr>threadId = 1, nextId = 1, flgs = 1, events = [], timers = [], sockets = [],
                     quitting = False, quitCode = 0\<rparr>),
      use_count = (\<lambda>a. if a = 5 then 2 else 0), mainLoop = Some 5,
      localLoop = (\<lambda>t. None), heap = {42}, reported = []\<rparr>) = {42}
   \<and> deleteLater 9 42
     \<lparr>loops = (\<lambda>a. \<lparr>threadId = 1, nextId = 1, flgs = 1, events = [], timers = [], sockets = [],
                     quitting = False, quitCode = 0\<rparr>),
      use_count = (\<lambda>a. 0), mainLoop = Some 5,
      localLoop = (\<lambda>t. None), heap = {42}, reported = []\<rparr>
     = \<lparr>loops = (\<lambda>a. \<lparr>threadId = 1, nextId = 1, flgs = 1, events = [], timers = [], sockets = [],
                     quitting = False, quitCode = 0\<rparr>),
      use_count = (\<lambda>a. 0), mainLoop = Some 5,
      localLoop = (\<lambda>t. None), heap = {42}, reported = [''No event loop!'']\<rparr>
   \<and> Event_exec (DeleteLaterEvent 42) {42} = {}"
proof -
  let ?l = "\<lparr>threadId = 1, nextId = 1, flgs = 1, events = [], timers = [], sockets = [],
                     quitting = False, quitCode = 0\<rparr>"
  let ?p = "\<lparr>loops = (\<lambda>a. ?l),
      use_count = (\<lambda>a. if a = 5 then 2 else 0), mainLoop = Some (5::nat),
      localLoop = (\<lambda>t. None), heap = {42::nat}, reported = []\<rparr>"
  let ?q = "\<lparr>loops = (\<lambda>a. ?l),
      use_count = (\<lambda>a. 0), mainLoop = Some (5::nat),
      localLoop = (\<lambda>t. None), heap = {42::nat}, reported = []\<rparr>"
  have 1: "deleteLater 9 42 ?p = post_to 5 (DeleteLaterEvent 42) ?p"
    using deleteLater_posts_release_call [of 9 42 ?p] by (simp add: lock_def)
  have 2: "deleteLater 9 42 ?q = error ''No event loop!'' ?q"
    using deleteLater_posts_release_call [of 9 42 ?q] by (simp add: lock_def)
  show ?thesis
    unfolding 1 2 by (simp add: post_to_def post_def error_def)
qed

section \<open>Properties of the timer identifiers\<close>

lemma unat_add_of_nat:
  fixes w :: "32 word"
  assumes "unat w + k < 2 ^ 32"
  shows "unat (w + of_nat k) = unat w + k"
proof -
  have k: "k < 2 ^ 32" using assms by simp
  have e: "unat (of_nat k :: 32 word) = k"
    using k by (simp add: unat_of_nat)
  have "unat w + unat (of_nat k :: 32 word) < 2 ^ LENGTH(32)"
    using assms e by simp
  then have "unat (w + of_nat k) = unat w + unat (of_nat k :: 32 word)"
    by (rule unat_add_lem [THEN iffD1])
  then show ?thesis by (simp only: e)
qed

lemma sint_small:
  fixes w :: "32 word"
  assumes "unat w + k < 2 ^ 31"
  shows "sint (w + of_nat k) = int (unat w + k)"
proof -
  have u: "unat (w + of_nat k) = unat w + k"
    using assms by (intro unat_add_of_nat) simp
  have "sint (w + of_nat k) = signed_take_bit 31 (uint (w + of_nat k))"
    by (simp add: sint_uint)
  also have "uint (w + of_nat k) = int (unat (w + of_nat k))"
    by (rule uint_nat)
  also have "int (unat (w + of_nat k)) = int (unat w + k)"
    by (simp only: u)
  also have "signed_take_bit 31 (int (unat w + k)) = int (unat w + k)"
  proof (rule signed_take_bit_int_eq_self)
    have "(0::int) \<le> int (unat w + k)" by (rule of_nat_0_le_iff)
    moreover have "- (2 ^ 31) \<le> (0::int)" by simp
    ultimately show "- (2 ^ 31) \<le> int (unat w + k)" by (rule order_trans [rotated])
    have "int (unat w + k) < int (2 ^ 31)" using assms by (simp only: of_nat_less_iff)
    then show "int (unat w + k) < 2 ^ 31" by simp
  qed
  finally show ?thesis .
qed

lemma ids_distinct:
  fixes w :: "32 word"
  assumes "n \<le> 2 ^ 32"
  shows "distinct (map (\<lambda>k. sint (w + of_nat k)) [0..<n])"
proof -
  have "inj_on (\<lambda>k. sint (w + of_nat k)) (set [0..<n])"
  proof (rule inj_onI)
    fix j k assume j: "j \<in> set [0..<n]" and k: "k \<in> set [0..<n]"
      and e: "sint (w + of_nat j) = sint (w + of_nat k)"
    from e have "w + of_nat j = w + of_nat k" by (rule signed_word_eqI)
    then have "(of_nat j :: 32 word) = of_nat k" by simp
    then have "unat (of_nat j :: 32 word) = unat (of_nat k :: 32 word)" by simp
    moreover have "j < 2 ^ 32" "k < 2 ^ 32" using j k assms by simp_all
    ultimately show "j = k" by (simp add: unat_of_nat)
  qed
  then show ?thesis by (simp add: distinct_map)
qed

lemma ids_increasing:
  fixes w :: "32 word"
  assumes "unat w + n \<le> 2 ^ 31"
  shows "sorted_wrt (<) (map (\<lambda>k. sint (w + of_nat k)) [0..<n])"
proof -
  have "\<And>j k. j < k \<Longrightarrow> k < n \<Longrightarrow> sint (w + of_nat j) < sint (w + of_nat k)"
  proof -
    fix j k assume jk: "j < k" and kn: "k < n"
    have "unat w + j < 2 ^ 31" "unat w + k < 2 ^ 31" using jk kn assms by simp_all
    then have "sint (w + of_nat j) = int (unat w + j)" "sint (w + of_nat k) = int (unat w + k)"
      by (simp_all only: sint_small)
    then show "sint (w + of_nat j) < sint (w + of_nat k)" using jk by simp
  qed
  then show ?thesis
    by (simp add: sorted_wrt_map sorted_wrt_iff_nth_less)
qed

lemma registerTimer_result:
  "registerTimer f t fl now l =
     (sint (nextId l),
      l\<lparr>nextId := nextId l + 1,
        timers := filter (\<lambda>e. fst e \<noteq> sint (nextId l)) (timers l) @
                  [(sint (nextId l), \<lparr>expires = now + t, period = t,
                         repeat = (fl AND SingleShot = 0), timerCallback = f\<rparr>)]\<rparr>)"
  by (simp add: registerTimer_def generateId_def)

lemma registerTimers_Cons:
  "registerTimers ((f, t, fl, now) # reqs) l =
     (sint (nextId l) # fst (registerTimers reqs (snd (registerTimer f t fl now l))),
      snd (registerTimers reqs (snd (registerTimer f t fl now l))))"
  by (simp add: registerTimer_result split: prod.splits)

lemma registerTimers_nextId:
  "nextId (snd (registerTimers reqs l)) = nextId l + of_nat (length reqs)"
proof (induction reqs arbitrary: l)
  case Nil
  show ?case by simp
next
  case (Cons r reqs)
  obtain f t fl now where r: "r = (f, t, fl, now)" by (cases r)
  have "nextId (snd (registerTimers (r # reqs) l))
          = nextId (snd (registerTimer f t fl now l)) + of_nat (length reqs)"
    unfolding r registerTimers_Cons by (simp only: snd_conv Cons.IH)
  also have "nextId (snd (registerTimer f t fl now l)) = nextId l + 1"
    by (simp add: registerTimer_result)
  finally show ?case by (simp add: add.assoc)
qed

lemma registerTimers_ids:
  "fst (registerTimers reqs l) = map (\<lambda>k. sint (nextId l + of_nat k)) [0..<length reqs]"
proof (induction reqs arbitrary: l)
  case Nil
  show ?case by simp
next
  case (Cons r reqs)
  obtain f t fl now where r: "r = (f, t, fl, now)" by (cases r)
  let ?l1 = "snd (registerTimer f t fl now l)"
  have n: "nextId ?l1 = nextId l + 1" by (simp add: registerTimer_result)
  have "fst (registerTimers (r # reqs) l) = sint (nextId l) # fst (registerTimers reqs ?l1)"
    unfolding r registerTimers_Cons by simp
  also have "fst (registerTimers reqs ?l1)
               = map (\<lambda>k. sint (nextId l + 1 + of_nat k)) [0..<length reqs]"
    by (simp only: Cons.IH n)
  also have "sint (nextId l) # map (\<lambda>k. sint (nextId l + 1 + of_nat k)) [0..<length reqs]
               = map (\<lambda>k. sint (nextId l + of_nat k)) [0..<length (r # reqs)]"
    by (simp add: upt_conv_Cons map_Suc_upt [symmetric] add.assoc del: upt_Suc)
  finally show ?case .
qed

lemma registerTimers_table:
  "distinct (fst (registerTimers reqs l)) \<Longrightarrow>
   set (fst (registerTimers reqs l)) \<inter> fst ` set (timers l) = {} \<Longrightarrow>
   map fst (timers (snd (registerTimers reqs l)))
     = map fst (timers l) @ fst (registerTimers reqs l)"
proof (induction reqs arbitrary: l)
  case Nil
  show ?case by simp
next
  case (Cons r reqs)
  obtain f t fl now where r: "r = (f, t, fl, now)" by (cases r)
  let ?i = "sint (nextId l)"
  let ?l1 = "snd (registerTimer f t fl now l)"
  let ?ids = "fst (registerTimers reqs ?l1)"
  have ids: "fst (registerTimers (r # reqs) l) = ?i # ?ids"
    and st: "snd (registerTimers (r # reqs) l) = snd (registerTimers reqs ?l1)"
    unfolding r registerTimers_Cons by simp_all
  from Cons.prems ids have d: "distinct ?ids" and ni: "?i \<notin> set ?ids"
    and fresh: "?i \<notin> fst ` set (timers l)" and dis: "set ?ids \<inter> fst ` set (timers l) = {}"
    by auto
  from fresh have "filter (\<lambda>e. fst e \<noteq> ?i) (timers l) = timers l"
    by (force simp: filter_id_conv)
  then have t1: "map fst (timers ?l1) = map fst (timers l) @ [?i]"
    by (simp add: registerTimer_result)
  then have "fst ` set (timers ?l1) = insert ?i (fst ` set (timers l))"
    by (metis (no_types) Un_insert_right append_Nil2 list.set(2) list.set_map set_append)
  with ni dis have "set ?ids \<inter> fst ` set (timers ?l1) = {}" by auto
  from Cons.IH [OF d this] t1 ids st show ?case by simp
qed

text \<open>
  C4, as amended. For every sequence of \<^verbatim>\<open>registerTimer\<close> calls on one instance the
  identifiers returned are the successive values of the 32-bit counter \<open>nextId\<close> read
  as \<^verbatim>\<open>int\<close>, and the counter ends advanced by the number of calls. They are strictly
  increasing as long as the counter does not pass \<open>2 ^ 31\<close>, and pairwise distinct in
  any run of at most \<open>2 ^ 32\<close> calls; with distinct identifiers that no timer of the
  table already has, every timer of the run stays registered under its own identifier,
  after the timers that were there.
\<close>

theorem registerTimer_identifiers:
  "fst (registerTimers reqs l) = map (\<lambda>k. sint (nextId l + of_nat k)) [0..<length reqs]
   \<and> nextId (snd (registerTimers reqs l)) = nextId l + of_nat (length reqs)
   \<and> (unat (nextId l) + length reqs \<le> 2 ^ 31 \<longrightarrow> sorted_wrt (<) (fst (registerTimers reqs l)))
   \<and> (length reqs \<le> 2 ^ 32 \<longrightarrow> distinct (fst (registerTimers reqs l)))
   \<and> (length reqs \<le> 2 ^ 32 \<and> set (fst (registerTimers reqs l)) \<inter> fst ` set (timers l) = {} \<longrightarrow>
        map fst (timers (snd (registerTimers reqs l)))
          = map fst (timers l) @ fst (registerTimers reqs l))"
proof -
  have d: "length reqs \<le> 2 ^ 32 \<Longrightarrow> distinct (fst (registerTimers reqs l))"
    unfolding registerTimers_ids by (rule ids_distinct)
  have s: "unat (nextId l) + length reqs \<le> 2 ^ 31 \<Longrightarrow> sorted_wrt (<) (fst (registerTimers reqs l))"
    unfolding registerTimers_ids by (rule ids_increasing)
  from d s registerTimers_ids [of reqs l] registerTimers_nextId [of reqs l]
    registerTimers_table [of reqs l]
  show ?thesis by blast
qed

text \<open>Three timers registered on a loop whose counter stands at 1.\<close>

theorem registerTimer_identifiers_witness:
  "fst (registerTimers
     [(Callback 0 [] None, 10, 0, 0), (Callback 1 [] None, 20, 1, 0), (Callback 2 [] None, 5, 0, 3)]
     \<lparr>threadId = 1, nextId = 1, flgs = 0, events = [], timers = [], sockets = [],
      quitting = False, quitCode = 0\<rparr>) = [1, 2, 3]
   \<and> sorted_wrt (<) (fst (registerTimers
     [(Callback 0 [] None, 10, 0, 0), (Callback 1 [] None, 20, 1, 0), (Callback 2 [] None, 5, 0, 3)]
     \<lparr>threadId = 1, nextId = 1, flgs = 0, events = [], timers = [], sockets = [],
      quitting = False, quitCode = 0\<rparr>))
   \<and> map fst (timers (snd (registerTimers
     [(Callback 0 [] None, 10, 0, 0), (Callback 1 [] None, 20, 1, 0), (Callback 2 [] None, 5, 0, 3)]
     \<lparr>threadId = 1, nextId = 1, flgs = 0, events = [], timers = [], sockets = [],
      quitting = False, quitCode = 0\<rparr>))) = [1, 2, 3]"
proof -
  let ?reqs = "[(Callback 0 [] None, 10, 0, 0), (Callback 1 [] None, 20, 1, 0),
                (Callback 2 [] None, 5, 0, 3)] :: (callback \<times> int \<times> int \<times> int) list"
  let ?l = "\<lparr>threadId = 1, nextId = 1, flgs = 0, events = [], timers = [], sockets = [],
      quitting = False, quitCode = 0\<rparr>"
  note w = registerTimer_identifiers [of ?reqs ?l]
  have ids: "fst (registerTimers ?reqs ?l) = [1, 2, 3]"
    using w by (simp add: upt_conv_Cons)
  have h1: "unat (nextId ?l) + length ?reqs \<le> 2 ^ 31" by simp
  have h2: "length ?reqs \<le> 2 ^ 32 \<and> set (fst (registerTimers ?reqs ?l)) \<inter> fst ` set (timers ?l) = {}"
    by simp
  from w h1 have srt: "sorted_wrt (<) (fst (registerTimers ?reqs ?l))" by blast
  from w h2 have "map fst (timers (snd (registerTimers ?reqs ?l)))
          = map fst (timers ?l) @ fst (registerTimers ?reqs ?l)" by blast
  then have tab: "map fst (timers (snd (registerTimers ?reqs ?l))) = [1, 2, 3]"
    unfolding ids by simp
  from ids srt tab show ?thesis by (intro conjI)
qed

text \<open>
  C4 as stated fails where the counter passes \<open>2 ^ 31\<close>: with \<open>nextId\<close> at
  \<open>0x7FFFFFFF\<close> two successive registrations return 2147483647 and then -2147483648.
  The counter gets there from any start: it advances by one with every registration.
\<close>

theorem registerTimer_identifiers_counterexample:
  "fst (registerTimers [(Callback 0 [] None, 10, 0, 0), (Callback 1 [] None, 10, 0, 0)]
     \<lparr>threadId = 1, nextId = 0x7FFFFFFF, flgs = 0, events = [], timers = [], sockets = [],
      quitting = False, quitCode = 0\<rparr>) = [2147483647, - 2147483648]
   \<and> \<not> sorted_wrt (<) (fst (registerTimers
     [(Callback 0 [] None, 10, 0, 0), (Callback 1 [] None, 10, 0, 0)]
     \<lparr>threadId = 1, nextId = 0x7FFFFFFF, flgs = 0, events = [], timers = [], sockets = [],
      quitting = False, quitCode = 0\<rparr>))"
  by (simp add: registerTimer_def generateId_def)

section \<open>Properties of the run loop\<close>

lemma events_run: "events (run e (l\<lparr>events := q\<rparr>)) = q @ enqueued_by e"
  by (cases e) (simp_all add: invoke_def quit_def Let_def split: option.splits)

lemma tables_run:
  "timers (run e l) = timers l" "sockets (run e l) = sockets l"
  by (cases e; simp add: invoke_def quit_def Let_def split: option.splits)+

lemma drain_Nil: "events l = [] \<Longrightarrow> drain l = (l, [])"
  by (subst drain.simps) simp

lemma drain_Cons:
  "events l = e # q \<Longrightarrow>
   drain l = (fst (drain (run e (l\<lparr>events := q\<rparr>))),
              Deferred e # snd (drain (run e (l\<lparr>events := q\<rparr>))))"
  by (subst drain.simps) (simp split: prod.splits)

lemma drain_fifo:
  "events (fst (drain l)) = [] \<and> list_all is_Deferred (snd (drain l))
   \<and> timers (fst (drain l)) = timers l \<and> sockets (fst (drain l)) = sockets l
   \<and> concat (map executed (snd (drain l)))
       = events l @ concat (map enqueued_by (concat (map executed (snd (drain l)))))"
proof (induction l rule: drain.induct)
  case (1 l)
  show ?case
  proof (cases "events l")
    case Nil
    then show ?thesis by (simp add: drain_Nil)
  next
    case (Cons e q)
    let ?l1 = "run e (l\<lparr>events := q\<rparr>)"
    define xs where "xs = concat (map executed (snd (drain ?l1)))"
    from "1.IH" [OF Cons] have ih: "events (fst (drain ?l1)) = []"
      "list_all is_Deferred (snd (drain ?l1))"
      "timers (fst (drain ?l1)) = timers ?l1" "sockets (fst (drain ?l1)) = sockets ?l1"
      and fx: "xs = (q @ enqueued_by e) @ concat (map enqueued_by xs)"
      unfolding xs_def events_run by blast+
    have d: "drain l = (fst (drain ?l1), Deferred e # snd (drain ?l1))"
      by (rule drain_Cons [OF Cons])
    have tr_xs: "concat (map executed (snd (drain l))) = e # xs"
      by (simp add: d xs_def)
    also have "\<dots> = e # ((q @ enqueued_by e) @ concat (map enqueued_by xs))"
      by (rule arg_cong [where f = "Cons e", OF fx])
    also have "\<dots> = events l @ concat (map enqueued_by (e # xs))"
      by (simp add: Cons)
    finally have "concat (map executed (snd (drain l)))
                    = events l @ concat (map enqueued_by (e # xs))" .
    then have c: "concat (map executed (snd (drain l)))
        = events l @ concat (map enqueued_by (concat (map executed (snd (drain l)))))"
      unfolding tr_xs .
    have a: "events (fst (drain l)) = []" using ih(1) by (simp add: d)
    have b: "list_all is_Deferred (snd (drain l))" using ih(2) by (simp add: d)
    have t: "timers (fst (drain l)) = timers l" "sockets (fst (drain l)) = sockets l"
      using ih(3,4) by (simp_all add: d tables_run)
    from a b t c show ?thesis by (intro conjI)
  qed
qed

lemma fire_timers_trace:
  "snd (fire_timers now ts l)
     = map (\<lambda>e. TimerFired (fst e)) (filter (\<lambda>e. expires (snd e) \<le> now) ts)"
  by (induction now ts l rule: fire_timers.induct) (auto split: prod.splits)

lemma dispatch_sockets_trace:
  "list_all is_SocketFired (snd (dispatch_sockets rs l))"
  by (induction rs l rule: dispatch_sockets.induct) (auto split: prod.splits option.splits)

lemma serve_posts:
  "events (fold serve (map (\<lambda>x. (fst x, Post (snd x))) posts) l) = events l @ map snd posts"
  by (induction posts arbitrary: l) (simp_all add: post_def)

text \<open>
  C2. One iteration of \<^verbatim>\<open>exec\<close> is the drain of the deferred-call queue, then the
  expired timers, then the sockets, and its trace is the three traces in this order.
  The first part holds deferred calls only and the queue is empty when it ends, so no
  timer callback fires before the queue is drained completely. The calls run in FIFO
  order: the calls executed are the queue as it stood, followed by what the executed
  calls themselves enqueued, in the order of execution. The second part is exactly
  the timers of the table whose expiration has passed, in table order, and the third
  part holds socket dispatches only. Posts arrive in the queue in the one order the
  lock gives them, whichever threads made them.
\<close>

theorem iteration_order:
  "iteration now ready l
     = (fst (dispatch_sockets ready (fst (fire_timers now (timers l) (fst (drain l))))),
        snd (drain l)
        @ snd (fire_timers now (timers l) (fst (drain l)))
        @ snd (dispatch_sockets ready (fst (fire_timers now (timers l) (fst (drain l))))))
   \<and> events (fst (drain l)) = []
   \<and> list_all is_Deferred (snd (drain l))
   \<and> concat (map executed (snd (drain l)))
       = events l @ concat (map enqueued_by (concat (map executed (snd (drain l)))))
   \<and> snd (fire_timers now (timers l) (fst (drain l)))
       = map (\<lambda>e. TimerFired (fst e)) (filter (\<lambda>e. expires (snd e) \<le> now) (timers l))
   \<and> list_all is_SocketFired
        (snd (dispatch_sockets ready (fst (fire_timers now (timers l) (fst (drain l))))))
   \<and> events (fold serve (map (\<lambda>x. (fst x, Post (snd x))) posts) l) = events l @ map snd posts"
proof -
  note d = drain_fifo [of l]
  have t: "timers (fst (drain l)) = timers l" using d by blast
  have 1: "iteration now ready l
     = (fst (dispatch_sockets ready (fst (fire_timers now (timers l) (fst (drain l))))),
        snd (drain l)
        @ snd (fire_timers now (timers l) (fst (drain l)))
        @ snd (dispatch_sockets ready (fst (fire_timers now (timers l) (fst (drain l))))))"
    by (simp add: iteration_def case_prod_beta t)
  from d have 2: "events (fst (drain l)) = []" and 3: "list_all is_Deferred (snd (drain l))"
    and 4: "concat (map executed (snd (drain l)))
       = events l @ concat (map enqueued_by (concat (map executed (snd (drain l)))))"
    by blast+
  note 5 = fire_timers_trace [of now "timers l" "fst (drain l)"]
  note 6 = dispatch_sockets_trace [of ready "fst (fire_timers now (timers l) (fst (drain l)))"]
  note 7 = serve_posts [of posts l]
  from 1 2 3 4 5 6 7 show ?thesis by (intro conjI)
qed

text \<open>
  A loop with two deferred calls queued, the first of which posts a release call
  when it runs; a repeating timer that is due and one that is not; a one-shot socket
  that fired. The trace: the two calls, the release call the first one posted, the
  due timer, the socket.
\<close>

theorem iteration_order_witness:
  "snd (iteration 60 [(4, 1)]
     \<lparr>threadId = 1, nextId = 3, flgs = 0,
      events = [SignalEvent (Callback 1 [DeleteLaterEvent 5] None), SignalEvent (Callback 2 [] None)],
      timers = [(1, \<lparr>expires = 50, period = 100, repeat = True,
                     timerCallback = Callback 10 [SignalEvent (Callback 3 [] None)] None\<rparr>),
                (2, \<lparr>expires = 500, period = 500, repeat = False,
                     timerCallback = Callback 11 [] None\<rparr>)],
      sockets = [(4, \<lparr>modeMask = 5, socketCallback = Callback 20 [] None\<rparr>)],
      quitting = False, quitCode = 0\<rparr>)
   = [Deferred (SignalEvent (Callback 1 [DeleteLaterEvent 5] None)),
      Deferred (SignalEvent (Callback 2 [] None)),
      Deferred (DeleteLaterEvent 5),
      TimerFired 1,
      SocketFired 4 1]
   \<and> events (fst (iteration 60 [(4, 1)]
     \<lparr>threadId = 1, nextId = 3, flgs = 0,
      events = [SignalEvent (Callback 1 [DeleteLaterEvent 5] None), SignalEvent (Callback 2 [] None)],
      timers = [(1, \<lparr>expires = 50, period = 100, repeat = True,
                     timerCallback = Callback 10 [SignalEvent (Callback 3 [] None)] None\<rparr>),
                (2, \<lparr>expires = 500, period = 500, repeat = False,
                     timerCallback = Callback 11 [] None\<rparr>)],
      sockets = [(4, \<lparr>modeMask = 5, socketCallback = Callback 20 [] None\<rparr>)],
      quitting = False, quitCode = 0\<rparr>)) = [SignalEvent (Callback 3 [] None)]"
proof -
  let ?l = "\<lparr>threadId = 1, nextId = 3, flgs = 0,
      events = [SignalEvent (Callback 1 [DeleteLaterEvent 5] None), SignalEvent (Callback 2 [] None)],
      timers = [(1, \<lparr>expires = 50, period = 100, repeat = True,
                     timerCallback = Callback 10 [SignalEvent (Callback 3 [] None)] None\<rparr>),
                (2, \<lparr>expires = 500, period = 500, repeat = False,
                     timerCallback = Callback 11 [] None\<rparr>)],
      sockets = [(4, \<lparr>modeMask = 5, socketCallback = Callback 20 [] None\<rparr>)],
      quitting = False, quitCode = 0\<rparr>"
  let ?l1 = "?l\<lparr>events := []\<rparr>"
  have d: "drain ?l = (?l1,
      [Deferred (SignalEvent (Callback 1 [DeleteLaterEvent 5] None)),
       Deferred (SignalEvent (Callback 2 [] None)),
       Deferred (DeleteLaterEvent 5)])"
    by (simp add: drain.simps invoke_def)
  have os: "(5::int) AND SocketOneShot \<noteq> 0" by (simp add: SocketOneShot_def)
  from iteration_order [of 60 "[(4, 1)]" ?l "[]"]
  have "iteration 60 [(4, 1)] ?l
     = (fst (dispatch_sockets [(4, 1)] (fst (fire_timers 60 (timers ?l) (fst (drain ?l))))),
        snd (drain ?l)
        @ snd (fire_timers 60 (timers ?l) (fst (drain ?l)))
        @ snd (dispatch_sockets [(4, 1)] (fst (fire_timers 60 (timers ?l) (fst (drain ?l))))))"
    by blast
  then show ?thesis
    unfolding d by (simp add: invoke_def reschedule_def unregisterSocket_def os)
qed

lemma stored_append: "stored b (stored a s) = stored (a @ b) s"
  by (simp add: stored_def)

lemma stored_Nil: "stored [] s = s"
  by (simp add: stored_def)

lemma quit_state_invoke:
  "(quitting (invoke cb l), quitCode (invoke cb l)) = stored (quit_call cb) (quitting l, quitCode l)"
  "timers (invoke cb l) = timers l" "sockets (invoke cb l) = sockets l"
  by (cases cb rule: quit_call.cases; simp add: invoke_def quit_def stored_def)+

lemma quit_state_run:
  "(quitting (run e l), quitCode (run e l)) = stored (event_quit_calls e) (quitting l, quitCode l)"
  by (cases e) (simp_all add: quit_state_invoke stored_Nil)

lemma quit_state_drain:
  "(quitting (fst (drain l)), quitCode (fst (drain l)))
     = stored (concat (map event_quit_calls (concat (map executed (snd (drain l))))))
         (quitting l, quitCode l)"
proof (induction l rule: drain.induct)
  case (1 l)
  show ?case
  proof (cases "events l")
    case Nil
    then show ?thesis by (simp add: drain_Nil stored_Nil)
  next
    case (Cons e q)
    let ?l0 = "l\<lparr>events := q\<rparr>"
    let ?l1 = "run e ?l0"
    have d: "drain l = (fst (drain ?l1), Deferred e # snd (drain ?l1))"
      by (rule drain_Cons [OF Cons])
    have "(quitting (fst (drain l)), quitCode (fst (drain l)))
            = (quitting (fst (drain ?l1)), quitCode (fst (drain ?l1)))"
      by (simp add: d)
    also have "\<dots> = stored (concat (map event_quit_calls (concat (map executed (snd (drain ?l1))))))
                        (quitting ?l1, quitCode ?l1)"
      by (rule "1.IH" [OF Cons])
    also have "(quitting ?l1, quitCode ?l1) = stored (event_quit_calls e) (quitting ?l0, quitCode ?l0)"
      by (rule quit_state_run)
    also have "(quitting ?l0, quitCode ?l0) = (quitting l, quitCode l)" by simp
    finally show ?thesis
      by (simp add: stored_append d)
  qed
qed

lemma quit_state_fire_timers:
  "(quitting (fst (fire_timers now ts l)), quitCode (fst (fire_timers now ts l)))
     = stored (concat (map (\<lambda>e. quit_call (timerCallback (snd e)))
                         (filter (\<lambda>e. expires (snd e) \<le> now) ts)))
         (quitting l, quitCode l)
   \<and> sockets (fst (fire_timers now ts l)) = sockets l"
proof (induction now ts l rule: fire_timers.induct)
  case (1 now l)
  show ?case by (simp add: stored_Nil)
next
  case (2 now i t ts l)
  show ?case
  proof (cases "expires t \<le> now")
    case True
    let ?l0 = "if repeat t then reschedule i l else unregisterTimer i l"
    have q0: "(quitting ?l0, quitCode ?l0) = (quitting l, quitCode l)" "sockets ?l0 = sockets l"
      by (simp_all add: reschedule_def unregisterTimer_def)
    from "2.IH"(1) [OF True] True show ?thesis
      by (simp add: case_prod_beta quit_state_invoke q0 stored_append)
  next
    case False
    with "2.IH"(2) [OF False] show ?thesis by simp
  qed
qed

lemma quit_state_dispatch_sockets:
  "(quitting (fst (dispatch_sockets rs l)), quitCode (fst (dispatch_sockets rs l)))
     = stored (concat (map quit_call (dispatched rs (sockets l)))) (quitting l, quitCode l)"
proof (induction rs l rule: dispatch_sockets.induct)
  case (1 l)
  show ?case by (simp add: stored_Nil)
next
  case (2 fd what rs l)
  show ?case
  proof (cases "map_of (sockets l) fd")
    case None
    with "2.IH"(1) [OF None] show ?thesis by simp
  next
    case (Some r)
    show ?thesis
    proof (cases "what = 0")
      case True
      with "2.IH"(2) [OF Some True] Some show ?thesis by simp
    next
      case False
      let ?l0 = "if modeMask r AND SocketOneShot \<noteq> 0 then unregisterSocket fd l else l"
      have q0: "(quitting ?l0, quitCode ?l0) = (quitting l, quitCode l)"
        "sockets ?l0 = (if modeMask r AND SocketOneShot \<noteq> 0
                        then filter (\<lambda>e. fst e \<noteq> fd) (sockets l) else sockets l)"
        by (simp_all add: unregisterSocket_def)
      from "2.IH"(3) [OF Some False] Some False show ?thesis
        by (simp add: case_prod_beta quit_state_invoke q0 stored_append)
    qed
  qed
qed

lemma quit_state_iteration:
  "(quitting (fst (iteration now ready l)), quitCode (fst (iteration now ready l)))
     = stored (iteration_quit_calls now ready l) (quitting l, quitCode l)"
proof -
  let ?l1 = "fst (drain l)"
  let ?l2 = "fst (fire_timers now (timers l) ?l1)"
  have t: "timers ?l1 = timers l" and s: "sockets ?l1 = sockets l"
    using drain_fifo [of l] by blast+
  have s2: "sockets ?l2 = sockets l"
    using quit_state_fire_timers [of now "timers l" ?l1] s by simp
  have "fst (iteration now ready l) = fst (dispatch_sockets ready ?l2)"
    by (simp add: iteration_def case_prod_beta t)
  then show ?thesis
    using quit_state_dispatch_sockets [of ready ?l2] quit_state_fire_timers [of now "timers l" ?l1]
      quit_state_drain [of l]
    by (simp add: s2 stored_append iteration_quit_calls_def)
qed

lemma quit_state_serve:
  "(quitting (fold serve reqs l), quitCode (fold serve reqs l))
     = stored (concat (map request_quit_calls reqs)) (quitting l, quitCode l)"
proof (induction reqs arbitrary: l)
  case Nil
  show ?case by (simp add: stored_Nil)
next
  case (Cons r reqs)
  have "(quitting (serve r l), quitCode (serve r l))
          = stored (request_quit_calls r) (quitting l, quitCode l)"
    by (cases r rule: request_quit_calls.cases) (simp_all add: quit_def post_def stored_def)
  with Cons.IH [of "serve r l"] show ?case
    by (simp add: stored_append)
qed

lemma exec_loop_quit_state:
  "case exec_loop start timeout ps l tr of
     NotOwningThread \<Rightarrow> False
   | Blocked l' tr' \<Rightarrow>
       (quitting l', quitCode l')
         = stored (exec_quit_calls start timeout ps l) (quitting l, quitCode l)
   | Returned code l' tr' \<Rightarrow>
       (quitting l', quitCode l')
         = stored (exec_quit_calls start timeout ps l) (quitting l, quitCode l)"
proof (induction start timeout ps l tr rule: exec_loop.induct)
  case (1 start timeout l tr)
  show ?case by (simp add: stored_Nil)
next
  case (2 start timeout ps l tr)
  show ?case by (simp add: stored_Nil)
next
  case (3 start timeout now reqs ready ps l tr)
  let ?l0 = "fold serve reqs l"
  obtain l1 tr1 where it: "iteration now ready ?l0 = (l1, tr1)"
    by (cases "iteration now ready ?l0")
  have q1: "(quitting l1, quitCode l1)
      = stored (concat (map request_quit_calls reqs) @ iteration_quit_calls now ready ?l0)
          (quitting l, quitCode l)"
    using quit_state_iteration [of now ready ?l0] quit_state_serve [of reqs l] it
    by (simp add: stored_append)
  show ?case
  proof (cases "quitting l1 \<or> (0 \<le> timeout \<and> start + timeout \<le> now)")
    case True
    with it q1 show ?thesis by auto
  next
    case False
    then have nq: "\<not> quitting l1" and nd: "\<not> (0 \<le> timeout \<and> start + timeout \<le> now)"
      by blast+
    have e: "exec_loop start timeout (Woken now reqs ready # ps) l tr
               = exec_loop start timeout ps l1 (tr @ tr1)"
      using it nq nd by auto
    have c: "exec_quit_calls start timeout (Woken now reqs ready # ps) l
               = (concat (map request_quit_calls reqs) @ iteration_quit_calls now ready ?l0)
                 @ exec_quit_calls start timeout ps l1"
      using it nq nd by auto
    have s: "stored (exec_quit_calls start timeout (Woken now reqs ready # ps) l)
                 (quitting l, quitCode l)
               = stored (exec_quit_calls start timeout ps l1) (quitting l1, quitCode l1)"
      unfolding c q1 by (simp add: stored_append)
    from "3.IH" [OF it [symmetric] nq nd] show ?thesis
      unfolding e s .
  qed
qed

lemma exec_loop_cases:
  "case exec_loop start timeout ps l tr of
     NotOwningThread \<Rightarrow> False
   | Blocked l' tr' \<Rightarrow>
        PollFailed \<notin> set ps
      \<and> list_all (\<lambda>p. \<not> deadline_reached start timeout p) ps
      \<and> (ps \<noteq> [] \<longrightarrow> \<not> quitting l')
   | Returned code l' tr' \<Rightarrow>
        (code = Success \<and> quitting l')
      \<or> (code = Timeout \<and> \<not> quitting l' \<and> list_ex (deadline_reached start timeout) ps)
      \<or> (code = GeneralError \<and> PollFailed \<in> set ps)"
proof (induction start timeout ps l tr rule: exec_loop.induct)
  case (1 start timeout l tr)
  show ?case by simp
next
  case (2 start timeout ps l tr)
  show ?case by simp
next
  case (3 start timeout now reqs ready ps l tr)
  obtain l1 tr1 where it: "iteration now ready (fold serve reqs l) = (l1, tr1)"
    by (cases "iteration now ready (fold serve reqs l)")
  show ?case
  proof (cases "quitting l1")
    case True
    with it show ?thesis by simp
  next
    case nq: False
    show ?thesis
    proof (cases "0 \<le> timeout \<and> start + timeout \<le> now")
      case True
      with it nq show ?thesis by simp
    next
      case False
      with "3.IH" [OF it [symmetric] nq False] it nq show ?thesis
        by (auto split: outcome.splits)
    qed
  qed
qed

text \<open>
  C3. A run of \<^verbatim>\<open>exec\<close> on the owning thread ends in one of four ways. It returns
  \<open>Success\<close>: then quit was observed, a \<^verbatim>\<open>quit\<close> call was made in the run or before
  it, and the quit code of the loop returned is the stored one: the code of the last
  \<^verbatim>\<open>quit\<close> call of the run, or the one stored before if the run made none. Or it
  returns \<open>Timeout\<close>: then no quit was observed and a poll returned at or after the
  deadline of a non-negative timeout. Or it returns \<open>GeneralError\<close>: then the poll
  primitive failed. Or it is still blocked in the poll, which happens only when no
  poll failed, no poll returned at or after the deadline, and no quit was observed
  in an iteration. In every case the run state and the quit code are what the
  \<^verbatim>\<open>quit\<close> calls of the run left. The three codes are different values, so a returned
  code is exactly one of them. At the first poll: a failure returns \<open>GeneralError\<close>
  at once; a quit observed after the iteration returns \<open>Success\<close> with the state and
  the trace of that iteration; no quit and the deadline reached returns \<open>Timeout\<close>.
  From another thread \<^verbatim>\<open>exec\<close> does not run.
\<close>

theorem exec_result_codes:
  "(tid = threadId l \<longrightarrow>
      (case exec tid start timeout ps l of
         NotOwningThread \<Rightarrow> False
       | Blocked l' tr' \<Rightarrow>
            PollFailed \<notin> set ps
          \<and> list_all (\<lambda>p. \<not> deadline_reached start timeout p) ps
          \<and> (ps \<noteq> [] \<longrightarrow> \<not> quitting l')
          \<and> (quitting l', quitCode l')
               = stored (exec_quit_calls start timeout ps l) (quitting l, quitCode l)
       | Returned code l' tr' \<Rightarrow>
            (quitting l', quitCode l')
               = stored (exec_quit_calls start timeout ps l) (quitting l, quitCode l)
          \<and> ((code = Success \<and> quitting l'
                \<and> (quitting l \<or> exec_quit_calls start timeout ps l \<noteq> [])
                \<and> quitCode l' = (if exec_quit_calls start timeout ps l = [] then quitCode l
                                  else last (exec_quit_calls start timeout ps l)))
              \<or> (code = Timeout \<and> \<not> quitting l'
                  \<and> list_ex (deadline_reached start timeout) ps)
              \<or> (code = GeneralError \<and> PollFailed \<in> set ps))))
   \<and> (tid = threadId l \<longrightarrow>
        exec tid start timeout (PollFailed # ps) l = Returned GeneralError l [])
   \<and> (tid = threadId l \<and> quitting (fst (iteration now ready (fold serve reqs l))) \<longrightarrow>
        exec tid start timeout (Woken now reqs ready # ps) l
          = Returned Success (fst (iteration now ready (fold serve reqs l)))
                             (snd (iteration now ready (fold serve reqs l))))
   \<and> (tid = threadId l \<and> \<not> quitting (fst (iteration now ready (fold serve reqs l)))
        \<and> 0 \<le> timeout \<and> start + timeout \<le> now \<longrightarrow>
        exec tid start timeout (Woken now reqs ready # ps) l
          = Returned Timeout (fst (iteration now ready (fold serve reqs l)))
                             (snd (iteration now ready (fold serve reqs l))))
   \<and> (tid \<noteq> threadId l \<longrightarrow> exec tid start timeout ps l = NotOwningThread)
   \<and> Success \<noteq> Timeout \<and> Success \<noteq> GeneralError \<and> Timeout \<noteq> GeneralError"
proof -
  have c: "Success \<noteq> Timeout \<and> Success \<noteq> GeneralError \<and> Timeout \<noteq> GeneralError"
    by (simp add: Success_def Timeout_def GeneralError_def)
  note a = exec_loop_cases [where start = start and timeout = timeout and ps = ps and l = l
      and tr = "[]"]
  note b = exec_loop_quit_state [where start = start and timeout = timeout and ps = ps and l = l
      and tr = "[]"]
  have 1: "tid = threadId l \<longrightarrow>
      (case exec tid start timeout ps l of
         NotOwningThread \<Rightarrow> False
       | Blocked l' tr' \<Rightarrow>
            PollFailed \<notin> set ps
          \<and> list_all (\<lambda>p. \<not> deadline_reached start timeout p) ps
          \<and> (ps \<noteq> [] \<longrightarrow> \<not> quitting l')
          \<and> (quitting l', quitCode l')
               = stored (exec_quit_calls start timeout ps l) (quitting l, quitCode l)
       | Returned code l' tr' \<Rightarrow>
            (quitting l', quitCode l')
               = stored (exec_quit_calls start timeout ps l) (quitting l, quitCode l)
          \<and> ((code = Success \<and> quitting l'
                \<and> (quitting l \<or> exec_quit_calls start timeout ps l \<noteq> [])
                \<and> quitCode l' = (if exec_quit_calls start timeout ps l = [] then quitCode l
                                  else last (exec_quit_calls start timeout ps l)))
              \<or> (code = Timeout \<and> \<not> quitting l'
                  \<and> list_ex (deadline_reached start timeout) ps)
              \<or> (code = GeneralError \<and> PollFailed \<in> set ps)))"
  proof
    assume t: "tid = threadId l"
    show "case exec tid start timeout ps l of
         NotOwningThread \<Rightarrow> False
       | Blocked l' tr' \<Rightarrow>
            PollFailed \<notin> set ps
          \<and> list_all (\<lambda>p. \<not> deadline_reached start timeout p) ps
          \<and> (ps \<noteq> [] \<longrightarrow> \<not> quitting l')
          \<and> (quitting l', quitCode l')
               = stored (exec_quit_calls start timeout ps l) (quitting l, quitCode l)
       | Returned code l' tr' \<Rightarrow>
            (quitting l', quitCode l')
               = stored (exec_quit_calls start timeout ps l) (quitting l, quitCode l)
          \<and> ((code = Success \<and> quitting l'
                \<and> (quitting l \<or> exec_quit_calls start timeout ps l \<noteq> [])
                \<and> quitCode l' = (if exec_quit_calls start timeout ps l = [] then quitCode l
                                  else last (exec_quit_calls start timeout ps l)))
              \<or> (code = Timeout \<and> \<not> quitting l'
                  \<and> list_ex (deadline_reached start timeout) ps)
              \<or> (code = GeneralError \<and> PollFailed \<in> set ps))"
    proof (cases "exec_loop start timeout ps l []")
      case NotOwningThread
      with a show ?thesis by simp
    next
      case (Blocked l' tr')
      with a b t show ?thesis by (simp add: exec_def)
    next
      case (Returned code l' tr')
      with a b have q: "(quitting l', quitCode l')
               = stored (exec_quit_calls start timeout ps l) (quitting l, quitCode l)"
        and d: "(code = Success \<and> quitting l')
          \<or> (code = Timeout \<and> \<not> quitting l' \<and> list_ex (deadline_reached start timeout) ps)
          \<or> (code = GeneralError \<and> PollFailed \<in> set ps)"
        by simp_all
      from q have q': "quitting l' \<longrightarrow>
             (quitting l \<or> exec_quit_calls start timeout ps l \<noteq> [])
           \<and> quitCode l' = (if exec_quit_calls start timeout ps l = [] then quitCode l
                             else last (exec_quit_calls start timeout ps l))"
        by (auto simp: stored_def split: if_splits)
      from d q' have "(code = Success \<and> quitting l'
                \<and> (quitting l \<or> exec_quit_calls start timeout ps l \<noteq> [])
                \<and> quitCode l' = (if exec_quit_calls start timeout ps l = [] then quitCode l
                                  else last (exec_quit_calls start timeout ps l)))
              \<or> (code = Timeout \<and> \<not> quitting l'
                  \<and> list_ex (deadline_reached start timeout) ps)
              \<or> (code = GeneralError \<and> PollFailed \<in> set ps)"
        by blast
      with q have "(quitting l', quitCode l')
               = stored (exec_quit_calls start timeout ps l) (quitting l, quitCode l)
          \<and> ((code = Success \<and> quitting l'
                \<and> (quitting l \<or> exec_quit_calls start timeout ps l \<noteq> [])
                \<and> quitCode l' = (if exec_quit_calls start timeout ps l = [] then quitCode l
                                  else last (exec_quit_calls start timeout ps l)))
              \<or> (code = Timeout \<and> \<not> quitting l'
                  \<and> list_ex (deadline_reached start timeout) ps)
              \<or> (code = GeneralError \<and> PollFailed \<in> set ps))"
        by (rule conjI)
      moreover have "exec tid start timeout ps l = Returned code l' tr'"
        using t Returned by (simp add: exec_def)
      ultimately show ?thesis
        by (simp only: outcome.case)
    qed
  qed
  have 2: "tid = threadId l \<longrightarrow>
        exec tid start timeout (PollFailed # ps) l = Returned GeneralError l []"
    by (simp add: exec_def)
  have 3: "tid = threadId l \<and> quitting (fst (iteration now ready (fold serve reqs l))) \<longrightarrow>
        exec tid start timeout (Woken now reqs ready # ps) l
          = Returned Success (fst (iteration now ready (fold serve reqs l)))
                             (snd (iteration now ready (fold serve reqs l)))"
    by (simp add: exec_def case_prod_beta)
  have 4: "tid = threadId l \<and> \<not> quitting (fst (iteration now ready (fold serve reqs l)))
        \<and> 0 \<le> timeout \<and> start + timeout \<le> now \<longrightarrow>
        exec tid start timeout (Woken now reqs ready # ps) l
          = Returned Timeout (fst (iteration now ready (fold serve reqs l)))
                             (snd (iteration now ready (fold serve reqs l)))"
    by (simp add: exec_def case_prod_beta)
  have 5: "tid \<noteq> threadId l \<longrightarrow> exec tid start timeout ps l = NotOwningThread"
    by (simp add: exec_def)
  from 1 2 3 4 5 c show ?thesis by (intro conjI) blast+
qed

text \<open>
  The loop of thread 1 with a single-shot timer due at 50. Run for 1000 with polls
  returning at 50 and at 1000: the timer fires once and \<^verbatim>\<open>exec\<close> returns \<open>Timeout\<close>.
  Run without a deadline, with thread 2 asking to quit with code 7 and thread 3 with
  code 9 while the loop is blocked: \<open>Success\<close>, with 9 stored, the code of the last
  call. With a failing poll: \<open>GeneralError\<close>. With no poll returning: blocked. From
  thread 2: not run.
\<close>

theorem exec_result_codes_witness:
  "exec 1 0 1000 [Woken 50 [] [], Woken 1000 [] []]
     \<lparr>threadId = 1, nextId = 2, flgs = 0, events = [],
      timers = [(1, \<lparr>expires = 50, period = 50, repeat = False,
                     timerCallback = Callback 10 [] None\<rparr>)],
      sockets = [], quitting = False, quitCode = 0\<rparr>
   = Returned Timeout
       \<lparr>threadId = 1, nextId = 2, flgs = 0, events = [], timers = [], sockets = [],
        quitting = False, quitCode = 0\<rparr>
       [TimerFired 1]
   \<and> exec 1 0 (- 1) [Woken 20 [(2, Quit 7), (3, Quit 9)] []]
     \<lparr>threadId = 1, nextId = 2, flgs = 0, events = [], timers = [], sockets = [],
      quitting = False, quitCode = 0\<rparr>
   = Returned Success
       \<lparr>threadId = 1, nextId = 2, flgs = 0, events = [], timers = [], sockets = [],
        quitting = True, quitCode = 9\<rparr>
       []
   \<and> exec_quit_calls 0 (- 1) [Woken 20 [(2, Quit 7), (3, Quit 9)] []]
     \<lparr>threadId = 1, nextId = 2, flgs = 0, events = [], timers = [], sockets = [],
      quitting = False, quitCode = 0\<rparr> = [7, 9]
   \<and> exec 1 0 (- 1) [PollFailed]
     \<lparr>threadId = 1, nextId = 2, flgs = 0, events = [], timers = [], sockets = [],
      quitting = False, quitCode = 0\<rparr>
   = Returned GeneralError
       \<lparr>threadId = 1, nextId = 2, flgs = 0, events = [], timers = [], sockets = [],
        quitting = False, quitCode = 0\<rparr>
       []
   \<and> exec 1 0 (- 1) []
     \<lparr>threadId = 1, nextId = 2, flgs = 0, events = [], timers = [], sockets = [],
      quitting = False, quitCode = 0\<rparr>
   = Blocked
       \<lparr>threadId = 1, nextId = 2, flgs = 0, events = [], timers = [], sockets = [],
        quitting = False, quitCode = 0\<rparr>
       []
   \<and> exec 2 0 (- 1) [PollFailed]
     \<lparr>threadId = 1, nextId = 2, flgs = 0, events = [], timers = [], sockets = [],
      quitting = False, quitCode = 0\<rparr>
   = NotOwningThread"
proof -
  let ?l = "\<lparr>threadId = 1, nextId = 2, flgs = 0, events = [], timers = [], sockets = [],
      quitting = False, quitCode = 0\<rparr>"
  let ?lt = "\<lparr>threadId = 1, nextId = 2, flgs = 0, events = [],
      timers = [(1, \<lparr>expires = 50, period = 50, repeat = False,
                     timerCallback = Callback 10 [] None\<rparr>)],
      sockets = [], quitting = False, quitCode = 0\<rparr>"
  have 1: "exec 1 0 1000 [Woken 50 [] [], Woken 1000 [] []] ?lt = Returned Timeout ?l [TimerFired 1]"
    by (simp add: exec_def iteration_def drain_Nil invoke_def unregisterTimer_def)
  have it: "iteration 20 [] (fold serve [(2, Quit 7), (3, Quit 9)] ?l)
              = (?l\<lparr>quitting := True, quitCode := 9\<rparr>, [])"
    by (simp add: iteration_def drain_Nil quit_def)
  have 2: "exec 1 0 (- 1) [Woken 20 [(2, Quit 7), (3, Quit 9)] []] ?l
             = Returned Success (?l\<lparr>quitting := True, quitCode := 9\<rparr>) []"
    using exec_result_codes [where tid = 1 and l = ?l and start = 0 and timeout = "- 1"
        and ps = "[]" and now = 20 and reqs = "[(2, Quit 7), (3, Quit 9)]" and ready = "[]"]
    unfolding it by simp
  have qc: "exec_quit_calls 0 (- 1) [Woken 20 [(2, Quit 7), (3, Quit 9)] []] ?l = [7, 9]"
    unfolding exec_quit_calls.simps it by (simp add: iteration_quit_calls_def drain_Nil quit_def)
  have 3: "exec 1 0 (- 1) [PollFailed] ?l = Returned GeneralError ?l []"
    using exec_result_codes [where tid = 1 and l = ?l and start = 0 and timeout = "- 1"
        and ps = "[]"]
    by simp
  have 4: "exec 1 0 (- 1) [] ?l = Blocked ?l []"
    by (simp add: exec_def)
  have 5: "exec 2 0 (- 1) [PollFailed] ?l = NotOwningThread"
    using exec_result_codes [where tid = 2 and l = ?l and start = 0 and timeout = "- 1"
        and ps = "[PollFailed]"] by simp
  from 1 2 qc 3 4 5 show ?thesis by simp
qed

end
